theory Spec2Isabelle
  imports Main "HOL-Library.Finite_Map" "HOL-Library.List_Lexorder" "HOL-Library.Char_ord"
begin

section \<open>Go library functions used by the package code\<close>

text \<open>
  Go strings are byte sequences; they are modelled as \<^typ>\<open>string\<close> (a list of
  \<^typ>\<open>char\<close>, one per byte).  The functions of this section are the parts of the Go
  standard library (\<^verbatim>\<open>strings\<close>, \<^verbatim>\<open>strconv\<close>, \<^verbatim>\<open>regexp\<close>, \<^verbatim>\<open>errors\<close>) that
  \<^verbatim>\<open>pkg/kudoctl/packages/package.go\<close> calls.
\<close>

text \<open>
  Errors.  \<^verbatim>\<open>errors.New\<close> and \<^verbatim>\<open>fmt.Errorf\<close> build an error from a message,
  \<^verbatim>\<open>errors.Wrap\<close>/\<^verbatim>\<open>errors.Wrapf\<close> annotate a cause with a message, and
  \<^verbatim>\<open>strconv\<close> reports a \<^verbatim>\<open>NumError\<close> (function, input, reason).
\<close>

datatype error =
    New string
  | Wrap error string
  | NumError string string string

text \<open>
  A call either returns or panics.  What a fallible function returns is a sum:
  \<open>Inl\<close> the error, \<open>Inr\<close> the value.
\<close>

datatype 'a outcome = Returns 'a | Panics string

definition newline :: char where
  "newline = CHR 0x0A"

text \<open>\<^verbatim>\<open>strings.HasSuffix\<close>, \<^verbatim>\<open>strings.HasPrefix\<close>.\<close>

definition HasSuffix :: "string \<Rightarrow> string \<Rightarrow> bool" where
  "HasSuffix s sfx \<longleftrightarrow> length sfx \<le> length s \<and> drop (length s - length sfx) s = sfx"

definition HasPrefix :: "string \<Rightarrow> string \<Rightarrow> bool" where
  "HasPrefix s pfx \<longleftrightarrow> length pfx \<le> length s \<and> take (length pfx) s = pfx"

text \<open>\<^verbatim>\<open>strings.Index\<close>: the position of the first occurrence; Go's \<open>-1\<close> is \<open>None\<close>.\<close>

fun Index :: "string \<Rightarrow> string \<Rightarrow> nat option" where
  "Index [] substr = (if substr = [] then Some 0 else None)"
| "Index (c # cs) substr =
     (if HasPrefix (c # cs) substr then Some 0 else map_option Suc (Index cs substr))"

text \<open>
  \<^verbatim>\<open>strings.Split\<close>: cut at every occurrence of the separator, found from the left, each
  search starting behind the previous separator.  With an empty separator Go cuts after
  every UTF-8 sequence; the model cuts after every byte there (the package code only
  splits at \<^verbatim>\<open>"templates/"\<close>).
\<close>

function Split :: "string \<Rightarrow> string \<Rightarrow> string list" where
  "Split s sep =
     (if sep = [] then map (\<lambda>c. [c]) s
      else case Index s sep of
             None \<Rightarrow> [s]
           | Some m \<Rightarrow> take m s # Split (drop (m + length sep) s) sep)"
  by pat_completeness auto
termination
proof (relation "measure (\<lambda>(s, sep). length s)")
  show "wf (measure (\<lambda>(s, sep). length s))"
    by simp
next
  fix s sep :: string and m :: nat
  assume sep: "sep \<noteq> []" and idx: "Index s sep = Some m"
  have bound: "Index t sep = Some k \<Longrightarrow> k + length sep \<le> length t" for t k
  proof (induction t arbitrary: k)
    case Nil
    then show ?case by (simp split: if_splits)
  next
    case (Cons c cs)
    then show ?case by (auto simp: HasPrefix_def split: if_splits)
  qed
  from bound [OF idx] have "m + length sep \<le> length s" .
  with sep show "((drop (m + length sep) s, sep), (s, sep)) \<in> measure (\<lambda>(s, sep). length s)"
    by (cases sep) simp_all
qed

declare Split.simps [simp del]

text \<open>\<^verbatim>\<open>strings.Join\<close>.\<close>

fun Join :: "string list \<Rightarrow> string \<Rightarrow> string" where
  "Join [] sep = []"
| "Join [x] sep = x"
| "Join (x # y # zs) sep = x @ sep @ Join (y # zs) sep"

text \<open>\<^verbatim>\<open>strconv.ParseBool\<close>: Go returns \<open>(false, err)\<close> on a syntax error.\<close>

definition ParseBool :: "string \<Rightarrow> error + bool" where
  "ParseBool str =
     (if str \<in> set [''1'', ''t'', ''T'', ''true'', ''TRUE'', ''True''] then Inr True
      else if str \<in> set [''0'', ''f'', ''F'', ''false'', ''FALSE'', ''False''] then Inr False
      else Inl (NumError ''ParseBool'' str ''invalid syntax''))"

text \<open>
  \<^verbatim>\<open>regexp.Match\<close>, for the patterns the package needs: a sequence of items, each a
  literal byte or \<^verbatim>\<open>.\<close> (any character but a newline), taken once or starred.
  \<open>match_here\<close> matches a pattern at the start of the text (anything may follow);
  \<open>regexp_Match\<close> looks for a match starting anywhere, as an unanchored Go pattern does.
  A character that \<^verbatim>\<open>.\<close> consumes is one or more bytes, none of them a newline, and the
  literals are ASCII, so matching byte by byte accepts the same texts.
\<close>

datatype atom = Lit char | AnyCharNotNL

datatype item = One atom | Star atom

type_synonym regexp = "item list"

fun atom_matches :: "atom \<Rightarrow> char \<Rightarrow> bool" where
  "atom_matches (Lit l) c \<longleftrightarrow> c = l"
| "atom_matches AnyCharNotNL c \<longleftrightarrow> c \<noteq> newline"

fun match_here :: "regexp \<Rightarrow> string \<Rightarrow> bool" where
  "match_here [] s \<longleftrightarrow> True"
| "match_here (One a # re) [] \<longleftrightarrow> False"
| "match_here (One a # re) (c # s) \<longleftrightarrow> atom_matches a c \<and> match_here re s"
| "match_here (Star a # re) [] \<longleftrightarrow> match_here re []"
| "match_here (Star a # re) (c # s) \<longleftrightarrow>
     match_here re (c # s) \<or> (atom_matches a c \<and> match_here (Star a # re) s)"

fun regexp_Match :: "regexp \<Rightarrow> string \<Rightarrow> bool" where
  "regexp_Match re [] \<longleftrightarrow> match_here re []"
| "regexp_Match re (c # s) \<longleftrightarrow> match_here re (c # s) \<or> regexp_Match re s"

definition literal :: "string \<Rightarrow> regexp" where
  "literal s = map (\<lambda>c. One (Lit c)) s"


section \<open>Data model\<close>

text \<open>
  Modelled from the spec: the API types of package \<^verbatim>\<open>v1alpha1\<close> are declared outside the
  sources at hand.  The records below have the fields of the spec's data model, under the
  names by which the package code and the test of the plan selector read and write them.
  A Go pointer or a slice that the code compares with \<^verbatim>\<open>nil\<close> is an
  \<^typ>\<open>'a option\<close> (\<open>None\<close> is \<^verbatim>\<open>nil\<close>); a Go map that is only read is a partial
  function, a \<^verbatim>\<open>nil\<close> map reading like the empty one.  Maintainers and plans are only
  copied, never inspected: their types are the parameters \<open>'maintainer\<close> and \<open>'plan\<close>.
\<close>

record Parameter =
  Name :: string
  Description :: string
  Default :: "string option"
  Trigger :: string
  Required :: bool
  DisplayName :: string

text \<open>
  Modelled from the spec: the constants \<^verbatim>\<open>ApplyTaskKind\<close>, \<^verbatim>\<open>DeleteTaskKind\<close> and
  \<^verbatim>\<open>DummyTaskKind\<close> of package \<^verbatim>\<open>task\<close> are not in the sources.  The kind of a task
  is one of resource-apply, resource-delete and no-op, the three that \<^verbatim>\<open>validateTask\<close>
  switches on (distinct, as the cases of a Go switch are), or any other kind string.
\<close>

datatype TaskKind = ApplyTaskKind | DeleteTaskKind | DummyTaskKind | OtherTaskKind string

record ResourceTaskSpec =
  Resources :: "string list"

record TaskSpec =
  ResourceTaskSpec :: ResourceTaskSpec

record Task =
  Name :: string
  Kind :: TaskKind
  Spec :: TaskSpec

text \<open>\<^verbatim>\<open>Operator\<close>: the operator file of a package.\<close>

record ('maintainer, 'plan) Operator =
  Name :: string
  Description :: string
  Version :: string
  AppVersion :: string
  KUDOVersion :: string
  KubernetesVersion :: string
  Maintainers :: "'maintainer list"
  URL :: string
  Tasks :: "Task list"
  Plans :: "string \<rightharpoonup> 'plan"

text \<open>
  \<^verbatim>\<open>PackageFiles\<close>.  \<open>Templates\<close> is written by the parser, and writing to a
  \<^verbatim>\<open>nil\<close> map panics in Go, so the map is an option; \<open>Params\<close> is a slice that
  \<^verbatim>\<open>getCRDs\<close> compares with \<^verbatim>\<open>nil\<close>.
\<close>

record ('maintainer, 'plan) PackageFiles =
  Templates :: "(string \<rightharpoonup> string) option"
  Operator :: "('maintainer, 'plan) Operator option"
  Params :: "Parameter list option"

record TypeMeta =
  Kind :: string
  APIVersion :: string

record ObjectMeta =
  Name :: string
  Labels :: "string \<rightharpoonup> string"

record ObjectReference =
  Kind :: string
  Name :: string

record 'maintainer OperatorSpec =
  Description :: string
  KudoVersion :: string
  KubernetesVersion :: string
  Maintainers :: "'maintainer list"
  URL :: string

text \<open>
  The three resources.  The \<open>Status\<close> of the operator and of the operator version
  (empty structs) and \<open>UpgradableFrom\<close> (\<^verbatim>\<open>nil\<close>) are left at their zero values by
  \<^verbatim>\<open>getCRDs\<close> and have no field here.
\<close>

record 'maintainer v1alpha1_Operator =
  TypeMeta :: TypeMeta
  ObjectMeta :: ObjectMeta
  Spec :: "'maintainer OperatorSpec"

record 'plan OperatorVersionSpec =
  Operator :: ObjectReference
  Version :: string
  Templates :: "(string \<rightharpoonup> string) option"
  Tasks :: "Task list"
  Parameters :: "Parameter list option"
  Plans :: "string \<rightharpoonup> 'plan"

record 'plan OperatorVersion =
  TypeMeta :: TypeMeta
  ObjectMeta :: ObjectMeta
  Spec :: "'plan OperatorVersionSpec"

record InstanceSpec =
  OperatorVersion :: ObjectReference

text \<open>
  Modelled from the spec: the execution state is one of never-run, in-progress and
  complete, under the names of the constants in the test.
\<close>

datatype ExecutionStatus = ExecutionNeverRun | ExecutionInProgress | ExecutionComplete

record StepStatus =
  Name :: string
  Status :: ExecutionStatus

record PhaseStatus =
  Name :: string
  Status :: ExecutionStatus
  Steps :: "StepStatus list"

text \<open>\<open>LastFinishedRun\<close> is an instant; the zero time is \<open>0\<close>.\<close>

record PlanStatus =
  Name :: string
  Status :: ExecutionStatus
  LastFinishedRun :: int
  Phases :: "PhaseStatus list"

record InstanceStatus =
  PlanStatus :: "(string, PlanStatus) fmap"

record Instance =
  TypeMeta :: TypeMeta
  ObjectMeta :: ObjectMeta
  Spec :: InstanceSpec
  Status :: InstanceStatus

record ('maintainer, 'plan) PackageCRDs =
  Operator :: "'maintainer v1alpha1_Operator"
  OperatorVersion :: "'plan OperatorVersion"
  Instance :: Instance


section \<open>Parsing the files of a package\<close>

definition operatorFileName :: string where
  "operatorFileName = ''operator.yaml''"

text \<open>The pattern \<^verbatim>\<open>templates/.*.yaml\<close>; its dots are not escaped.\<close>

definition templateFileNameRegex :: regexp where
  "templateFileNameRegex =
     literal ''templates/'' @ [Star AnyCharNotNL, One AnyCharNotNL] @ literal ''yaml''"

definition paramsFileName :: string where
  "paramsFileName = ''params.yaml''"

definition apiVersion :: string where
  "apiVersion = ''kudo.dev/v1alpha1''"

definition isOperatorFile :: "string \<Rightarrow> bool" where
  "isOperatorFile name \<longleftrightarrow> HasSuffix name operatorFileName"

text \<open>The pattern is a constant that compiles, so the \<^verbatim>\<open>panic(err)\<close> is never reached.\<close>

definition isTemplateFile :: "string \<Rightarrow> bool" where
  "isTemplateFile name \<longleftrightarrow> regexp_Match templateFileNameRegex name"

definition isParametersFile :: "string \<Rightarrow> bool" where
  "isParametersFile name \<longleftrightarrow> HasSuffix name paramsFileName"

text \<open>Reading a Go \<^verbatim>\<open>map[string]string\<close> at a key it does not have gives the empty string.\<close>

definition index_or_empty :: "(string \<rightharpoonup> string) \<Rightarrow> string \<Rightarrow> string" where
  "index_or_empty m k = (case m k of None \<Rightarrow> [] | Some v \<Rightarrow> v)"

text \<open>
  Modelled from the spec: the helper \<^verbatim>\<open>kudo.String\<close> (package \<^verbatim>\<open>pkg/util/kudo\<close>) is
  not in the sources.  A parameter's default is optional; the helper makes a present
  default of a value, a pointer to that string.
\<close>

definition kudo_String :: "string \<Rightarrow> string option" where
  "kudo_String val = Some val"

text \<open>
  The body of the loop over the entries of the parameters file: one entry, its name and
  its mapping, gives one \<^verbatim>\<open>Parameter\<close> or the error that ends \<^verbatim>\<open>parsePackageFile\<close>.
\<close>

definition parseParameter :: "string \<Rightarrow> (string \<rightharpoonup> string) \<Rightarrow> error + Parameter" where
  "parseParameter paramName param =
     (case (case param ''required'' of
              None \<Rightarrow> Inr True
            | Some v \<Rightarrow>
                (case ParseBool v of
                   Inl err \<Rightarrow>
                     Inl (Wrap err (''failed parsing required field from parameter '' @ paramName
                            @ ''. cannot convert '' @ v @ '' to bool''))
                 | Inr parsed \<Rightarrow> Inr parsed)) of
        Inl err \<Rightarrow> Inl err
      | Inr required \<Rightarrow>
          Inr \<lparr>Parameter.Name = paramName,
               Parameter.Description = index_or_empty param ''description'',
               Default = (case param ''default'' of None \<Rightarrow> None | Some val \<Rightarrow> kudo_String val),
               Trigger = index_or_empty param ''trigger'',
               Required = required,
               DisplayName = index_or_empty param ''displayName''\<rparr>)"

text \<open>
  The loop itself.  Go visits the entries of the decoded map in an order of its choosing;
  the list is the entries in the order of the visit.
\<close>

fun parseParameters ::
  "(string \<times> (string \<rightharpoonup> string)) list \<Rightarrow> Parameter list \<Rightarrow> error + Parameter list" where
  "parseParameters [] paramsStruct = Inr paramsStruct"
| "parseParameters ((paramName, param) # params) paramsStruct =
     (case parseParameter paramName param of
        Inl err \<Rightarrow> Inl err
      | Inr r \<Rightarrow> parseParameters params (paramsStruct @ [r]))"

text \<open>
  \<^verbatim>\<open>parsePackageFile\<close>.  The YAML decoder is a library; its two uses are parameters:
  \<open>unmarshalOperator\<close> decodes the operator file into the current \<open>Operator\<close> pointer,
  \<open>unmarshalParams\<close> decodes the parameters file into a two-level map (the entries of
  the outer map as a list).  The package is updated in place in Go; the model returns it.
\<close>

definition parsePackageFile ::
  "(string \<Rightarrow> ('maintainer, 'plan) Operator option \<Rightarrow>
      error + ('maintainer, 'plan) Operator option) \<Rightarrow>
   (string \<Rightarrow> error + (string \<times> (string \<rightharpoonup> string)) list) \<Rightarrow>
   string \<Rightarrow> string \<Rightarrow> ('maintainer, 'plan) PackageFiles \<Rightarrow>
   (error + ('maintainer, 'plan) PackageFiles) outcome" where
  "parsePackageFile unmarshalOperator unmarshalParams filePath fileBytes currentPackage =
     (if isOperatorFile filePath then
        (case unmarshalOperator fileBytes (PackageFiles.Operator currentPackage) of
           Inl err \<Rightarrow> Returns (Inl (Wrap err ''failed to unmarshal operator file''))
         | Inr op \<Rightarrow> Returns (Inr (currentPackage\<lparr>PackageFiles.Operator := op\<rparr>)))
      else if isTemplateFile filePath then
        (let pathParts = Split filePath ''templates/'' in
         if pathParts = [] then Panics ''index out of range''
         else
           let name = pathParts ! (length pathParts - 1) in
           case PackageFiles.Templates currentPackage of
             None \<Rightarrow> Panics ''assignment to entry in nil map''
           | Some templates \<Rightarrow>
               Returns (Inr (currentPackage
                 \<lparr>PackageFiles.Templates := Some (templates(name \<mapsto> fileBytes))\<rparr>)))
      else if isParametersFile filePath then
        (case unmarshalParams fileBytes of
           Inl err \<Rightarrow>
             Returns (Inl (Wrap err (''failed to unmarshal parameters file: '' @ filePath)))
         | Inr params \<Rightarrow>
             (case parseParameters params [] of
                Inl err \<Rightarrow> Returns (Inl err)
              | Inr paramsStruct \<Rightarrow>
                  Returns (Inr (currentPackage\<lparr>Params := Some paramsStruct\<rparr>))))
      else
        Returns (Inl (New (''unexpected file when reading package from filesystem: ''
                            @ filePath))))"

definition newPackageFiles :: "('maintainer, 'plan) PackageFiles" where
  "newPackageFiles =
     \<lparr>PackageFiles.Templates = Some Map.empty, PackageFiles.Operator = None, Params = None\<rparr>"

section \<open>Validating tasks and building the resources\<close>

definition has_template :: "(string \<rightharpoonup> string) option \<Rightarrow> string \<Rightarrow> bool" where
  "has_template templates res \<longleftrightarrow>
     (case templates of None \<Rightarrow> False | Some m \<Rightarrow> m res \<noteq> None)"

text \<open>The loop of \<^verbatim>\<open>validateTask\<close> over the resources of a task.\<close>

fun missingTemplates ::
  "string \<Rightarrow> (string \<rightharpoonup> string) option \<Rightarrow> string list \<Rightarrow> string list \<Rightarrow> string list" where
  "missingTemplates taskName templates [] errs = errs"
| "missingTemplates taskName templates (res # resources) errs =
     missingTemplates taskName templates resources
       (if \<not> has_template templates res
        then errs @ [''task '' @ taskName @ '' missing template: '' @ res]
        else errs)"

text \<open>
  \<^verbatim>\<open>validateTask\<close> returns the violations; the second component is what it writes to
  the log.
\<close>

definition validateTask ::
  "Task \<Rightarrow> (string \<rightharpoonup> string) option \<Rightarrow> string list \<times> string list" where
  "validateTask t templates =
     (let (resources, logged) =
        (case Task.Kind t of
           ApplyTaskKind \<Rightarrow> (Resources (ResourceTaskSpec (Task.Spec t)), [])
         | DeleteTaskKind \<Rightarrow> (Resources (ResourceTaskSpec (Task.Spec t)), [])
         | DummyTaskKind \<Rightarrow> ([], [])
         | OtherTaskKind k \<Rightarrow> ([], [''no validation for task kind '' @ k @ '' implemented'']))
      in (missingTemplates (Task.Name t) templates resources [], logged))"

text \<open>The loop of \<^verbatim>\<open>getCRDs\<close> over the tasks: the violations and the log so far.\<close>

fun validateTasks ::
  "Task list \<Rightarrow> (string \<rightharpoonup> string) option \<Rightarrow> string list \<times> string list \<Rightarrow>
   string list \<times> string list" where
  "validateTasks [] templates (errs, logged) = (errs, logged)"
| "validateTasks (tt # tasks) templates (errs, logged) =
     (case validateTask tt templates of
        (es, ls) \<Rightarrow> validateTasks tasks templates (errs @ es, logged @ ls))"

text \<open>
  \<^verbatim>\<open>getCRDs\<close> returns a pair in Go, the resources (a pointer) and the error; the third
  component is what the task validation wrote to the log.  Two things come from outside
  the sources: the label key \<^verbatim>\<open>kudo.OperatorLabel\<close> and the random string generator
  \<^verbatim>\<open>rand.String\<close>; both are parameters.
\<close>

definition getCRDs ::
  "string \<Rightarrow> (nat \<Rightarrow> string) \<Rightarrow> ('maintainer, 'plan) PackageFiles \<Rightarrow>
   ('maintainer, 'plan) PackageCRDs option \<times> error option \<times> string list" where
  "getCRDs OperatorLabel rand_String p =
     (case PackageFiles.Operator p of
        None \<Rightarrow> (None, Some (New ''operator.yaml file is missing''), [])
      | Some pOperator \<Rightarrow>
     (case Params p of
        None \<Rightarrow> (None, Some (New ''params.yaml file is missing''), [])
      | Some pParams \<Rightarrow>
     (case validateTasks (Operator.Tasks pOperator) (PackageFiles.Templates p) ([], []) of
        (errs, logged) \<Rightarrow>
     if length errs \<noteq> 0 then (None, Some (New (Join errs [newline])), logged)
     else
       let operator =
             \<lparr>v1alpha1_Operator.TypeMeta = \<lparr>TypeMeta.Kind = ''Operator'', APIVersion = apiVersion\<rparr>,
              v1alpha1_Operator.ObjectMeta =
                \<lparr>ObjectMeta.Name = Operator.Name pOperator,
                 Labels = [''controller-tools.k8s.io'' \<mapsto> ''1.0'']\<rparr>,
              v1alpha1_Operator.Spec =
                \<lparr>OperatorSpec.Description = Operator.Description pOperator,
                 KudoVersion = KUDOVersion pOperator,
                 OperatorSpec.KubernetesVersion = Operator.KubernetesVersion pOperator,
                 OperatorSpec.Maintainers = Operator.Maintainers pOperator,
                 OperatorSpec.URL = Operator.URL pOperator\<rparr>\<rparr>;
           fv =
             \<lparr>OperatorVersion.TypeMeta =
                \<lparr>TypeMeta.Kind = ''OperatorVersion'', APIVersion = apiVersion\<rparr>,
              OperatorVersion.ObjectMeta =
                \<lparr>ObjectMeta.Name = Operator.Name pOperator @ ''-'' @ Operator.Version pOperator,
                 Labels = [''controller-tools.k8s.io'' \<mapsto> ''1.0'']\<rparr>,
              OperatorVersion.Spec =
                \<lparr>OperatorVersionSpec.Operator =
                   \<lparr>ObjectReference.Kind = ''Operator'',
                    ObjectReference.Name = Operator.Name pOperator\<rparr>,
                 OperatorVersionSpec.Version = Operator.Version pOperator,
                 OperatorVersionSpec.Templates = PackageFiles.Templates p,
                 OperatorVersionSpec.Tasks = Operator.Tasks pOperator,
                 Parameters = Params p,
                 OperatorVersionSpec.Plans = Operator.Plans pOperator\<rparr>\<rparr>;
           instance =
             \<lparr>Instance.TypeMeta = \<lparr>TypeMeta.Kind = ''Instance'', APIVersion = apiVersion\<rparr>,
              Instance.ObjectMeta =
                \<lparr>ObjectMeta.Name = Operator.Name pOperator @ ''-'' @ rand_String 6,
                 Labels = [''controller-tools.k8s.io'' \<mapsto> ''1.0'',
                           OperatorLabel \<mapsto> Operator.Name pOperator]\<rparr>,
              Instance.Spec =
                \<lparr>InstanceSpec.OperatorVersion =
                   \<lparr>ObjectReference.Kind = [],
                    ObjectReference.Name =
                      Operator.Name pOperator @ ''-'' @ Operator.Version pOperator\<rparr>\<rparr>,
              Instance.Status = \<lparr>PlanStatus = fmempty\<rparr>\<rparr>
       in (Some \<lparr>PackageCRDs.Operator = operator,
                  PackageCRDs.OperatorVersion = fv,
                  PackageCRDs.Instance = instance\<rparr>,
           None, logged))))"

section \<open>Loading many packages\<close>

text \<open>
  \<^verbatim>\<open>mapPaths\<close>.  The loader \<open>f\<close> returns a Go pair, a result and an error; the loop
  keeps the result when the error is \<^verbatim>\<open>nil\<close> and prints a warning otherwise.  The
  model returns the results and what was printed, one string for each \<^verbatim>\<open>Printf\<close>.
\<close>

fun mapPaths_loop ::
  "'fs \<Rightarrow> string list \<Rightarrow> ('fs \<Rightarrow> string \<Rightarrow> 'a \<times> error option) \<Rightarrow>
   'a list \<times> string list \<Rightarrow> 'a list \<times> string list" where
  "mapPaths_loop fs [] f (ops, printed) = (ops, printed)"
| "mapPaths_loop fs (path # paths) f (ops, printed) =
     (case f fs path of
        (op, Some err) \<Rightarrow>
          mapPaths_loop fs paths f
            (ops, printed @ [''WARNING: operator: '' @ path @ '' is invalid''])
      | (op, None) \<Rightarrow> mapPaths_loop fs paths f (ops @ [op], printed))"

definition mapPaths ::
  "'fs \<Rightarrow> string list \<Rightarrow> ('fs \<Rightarrow> string \<Rightarrow> 'a \<times> error option) \<Rightarrow> 'a list \<times> string list" where
  "mapPaths fs paths f = mapPaths_loop fs paths f ([], [])"


section \<open>Selecting the plan to report\<close>

text \<open>
  Modelled from the spec: \<^verbatim>\<open>GetLastExecutedPlanStatus\<close>, a method of the instance in
  package \<^verbatim>\<open>v1alpha1\<close>, is not in the sources; only its test is.  The spec gives the
  selection over the instance's plan-status map in three rules: a plan that is in
  progress is returned; otherwise, of the plans that are complete, the one that finished
  last, a later plan replacing the candidate only when its time is strictly greater and
  ties going by the lexical order of the plan names; otherwise none.  The model visits
  the plans in the lexical order of their names (the keys of the map), so that of several
  plans in progress, and of several complete plans with the same latest time, the first
  by name is returned.
\<close>

definition plansByName :: "(string, PlanStatus) fmap \<Rightarrow> (string \<times> PlanStatus) list" where
  "plansByName planStatus =
     List.map_filter (\<lambda>n. map_option (Pair n) (fmlookup planStatus n))
       (sorted_list_of_fset (fmdom planStatus))"

text \<open>
  Modelled from the spec: the complete plan that finished last, the candidate being
  replaced only by a plan with a strictly greater time.
\<close>

fun latestFinished ::
  "(string \<times> PlanStatus) option \<Rightarrow> (string \<times> PlanStatus) list \<Rightarrow>
   (string \<times> PlanStatus) option" where
  "latestFinished best [] = best"
| "latestFinished None (np # plans) = latestFinished (Some np) plans"
| "latestFinished (Some (bn, b)) ((n, p) # plans) =
     latestFinished
       (if LastFinishedRun p > LastFinishedRun b then Some (n, p) else Some (bn, b)) plans"

text \<open>
  Modelled from the spec: the three rules of the selection, in their order of priority.
\<close>

definition GetLastExecutedPlanStatus :: "(string, PlanStatus) fmap \<Rightarrow> PlanStatus option" where
  "GetLastExecutedPlanStatus planStatus =
     (let plans = plansByName planStatus in
      case filter (\<lambda>(n, p). PlanStatus.Status p = ExecutionInProgress) plans of
        (n, p) # _ \<Rightarrow> Some p
      | [] \<Rightarrow>
          map_option snd
            (latestFinished None
               (filter (\<lambda>(n, p). PlanStatus.Status p = ExecutionComplete) plans)))"


text \<open>
  The three tables of \<^verbatim>\<open>TestGetLastExecutedPlanStatus\<close>; \<open>testTime\<close> is
  2019-10-17 01:01:01.000000001 UTC in nanoseconds since the epoch.
\<close>

definition testTime :: int where
  "testTime = 1571274061000000001"

definition testPlan :: "string \<Rightarrow> ExecutionStatus \<Rightarrow> int \<Rightarrow> PlanStatus" where
  "testPlan name status finished =
     \<lparr>PlanStatus.Name = name, Status = status, LastFinishedRun = finished,
      Phases = [\<lparr>PhaseStatus.Name = ''phase'', Status = status,
                 Steps = [\<lparr>StepStatus.Name = ''step'', Status = status\<rparr>]\<rparr>]\<rparr>"

definition test_no_plan_ever_run :: "(string, PlanStatus) fmap" where
  "test_no_plan_ever_run = fmap_of_list [(''test'', testPlan ''test'' ExecutionNeverRun 0)]"

definition test_plan_in_progress :: "(string, PlanStatus) fmap" where
  "test_plan_in_progress =
     fmap_of_list [(''test'', testPlan ''test'' ExecutionInProgress 0),
                   (''test2'', testPlan ''test2'' ExecutionComplete 0)]"

definition test_last_executed_plan :: "(string, PlanStatus) fmap" where
  "test_last_executed_plan =
     fmap_of_list [(''test'', testPlan ''test'' ExecutionComplete testTime),
                   (''test2'', testPlan ''test2'' ExecutionComplete (testTime + 3600000000000))]"


text \<open>Example packages: an operator with the given tasks, and one template.\<close>

definition example_task :: "string \<Rightarrow> TaskKind \<Rightarrow> string list \<Rightarrow> Task" where
  "example_task name kind resources =
     \<lparr>Task.Name = name, Task.Kind = kind,
      Task.Spec = \<lparr>ResourceTaskSpec = \<lparr>Resources = resources\<rparr>\<rparr>\<rparr>"

definition example_operator :: "Task list \<Rightarrow> (string, string) Operator" where
  "example_operator tasks =
     \<lparr>Operator.Name = ''zookeeper'', Operator.Description = ''coordination service'',
      Operator.Version = ''0.1.0'', AppVersion = ''3.4.10'', KUDOVersion = ''0.5.0'',
      Operator.KubernetesVersion = ''1.14.0'', Operator.Maintainers = [],
      Operator.URL = ''https://zookeeper.apache.org'', Operator.Tasks = tasks,
      Operator.Plans = Map.empty\<rparr>"

definition example_package ::
  "Task list \<Rightarrow> Parameter list option \<Rightarrow> (string, string) PackageFiles" where
  "example_package tasks params =
     \<lparr>PackageFiles.Templates = Some [''service.yaml'' \<mapsto> ''kind: Service''],
      PackageFiles.Operator = Some (example_operator tasks), Params = params\<rparr>"

definition two_broken_tasks :: "Task list" where
  "two_broken_tasks =
     [example_task ''deploy'' ApplyTaskKind [''deploy.yaml''],
      example_task ''cleanup'' DeleteTaskKind [''job.yaml'']]"

definition valid_tasks :: "Task list" where
  "valid_tasks =
     [example_task ''deploy'' ApplyTaskKind [''service.yaml''],
      example_task ''wait'' DummyTaskKind [],
      example_task ''backup'' (OtherTaskKind ''Pipe'') [''missing.yaml'']]"

definition example_rand :: "nat \<Rightarrow> string" where
  "example_rand n = replicate n CHR ''x''"

text \<open>
  Example parameters files, as decoded: one that parses and one with a \<^verbatim>\<open>required\<close>
  value that is no boolean; and decoders that return them.
\<close>

definition example_params :: "(string \<times> (string \<rightharpoonup> string)) list" where
  "example_params =
     [(''replicas'', [''description'' \<mapsto> ''Number of nodes'', ''default'' \<mapsto> ''3'']),
      (''password'', [''required'' \<mapsto> ''true'', ''default'' \<mapsto> []]),
      (''image'', [''required'' \<mapsto> ''false'', ''displayName'' \<mapsto> ''Image''])]"

definition malformed_params :: "(string \<times> (string \<rightharpoonup> string)) list" where
  "malformed_params =
     [(''replicas'', [''default'' \<mapsto> ''3'']),
      (''password'', [''required'' \<mapsto> ''yes''])]"

definition example_unmarshalOperator ::
  "string \<Rightarrow> (string, string) Operator option \<Rightarrow> error + (string, string) Operator option" where
  "example_unmarshalOperator fileBytes current = Inr current"

definition example_unmarshalParams ::
  "string \<Rightarrow> error + (string \<times> (string \<rightharpoonup> string)) list" where
  "example_unmarshalParams fileBytes =
     (if fileBytes = ''malformed'' then Inr malformed_params else Inr example_params)"

text \<open>
  A loader for examples: it fails on \<^verbatim>\<open>b.tgz\<close>, returning a result beside the error as
  \<^verbatim>\<open>pathToOperator\<close> does, and returns the path itself for every other source.
\<close>

definition example_loader :: "unit \<Rightarrow> string \<Rightarrow> string \<times> error option" where
  "example_loader fs path =
     (if path = ''b.tgz'' then (''partial'', Some (New ''broken'')) else (path, None))"

section \<open>Properties of the library functions\<close>

lemma HasPrefix_iff: "HasPrefix s pfx \<longleftrightarrow> (\<exists>v. s = pfx @ v)"
proof
  assume "HasPrefix s pfx"
  then have "s = pfx @ drop (length pfx) s"
    by (metis HasPrefix_def append_take_drop_id)
  then show "\<exists>v. s = pfx @ v" ..
next
  assume "\<exists>v. s = pfx @ v"
  then show "HasPrefix s pfx"
    by (auto simp: HasPrefix_def)
qed

lemma Index_None_iff: "Index s sep = None \<longleftrightarrow> \<not> (\<exists>u v. s = u @ sep @ v)"
proof (induction s)
  case Nil
  show ?case by simp
next
  case (Cons c cs)
  show ?case
  proof (cases "HasPrefix (c # cs) sep")
    case True
    then obtain v where "c # cs = [] @ sep @ v"
      by (auto simp: HasPrefix_iff)
    with True show ?thesis by (metis Index.simps(2) option.distinct(1))
  next
    case False
    have "(\<exists>u v. c # cs = u @ sep @ v) \<longleftrightarrow> (\<exists>u v. cs = u @ sep @ v)"
    proof
      assume "\<exists>u v. c # cs = u @ sep @ v"
      then obtain u v where uv: "c # cs = u @ sep @ v" by blast
      show "\<exists>u v. cs = u @ sep @ v"
      proof (cases u)
        case Nil
        with uv False show ?thesis by (simp add: HasPrefix_iff)
      next
        case (Cons a u')
        with uv have "cs = u' @ sep @ v" by simp
        then show ?thesis by blast
      qed
    next
      assume "\<exists>u v. cs = u @ sep @ v"
      then obtain u v where "cs = u @ sep @ v" by blast
      then have "c # cs = (c # u) @ sep @ v" by simp
      then show "\<exists>u v. c # cs = u @ sep @ v" by blast
    qed
    with False Cons show ?thesis by simp
  qed
qed

lemma Index_Some:
  "Index s sep = Some m \<Longrightarrow>
   s = take m s @ sep @ drop (m + length sep) s \<and>
   (\<forall>u v. s = u @ sep @ v \<longrightarrow> m \<le> length u)"
proof (induction s arbitrary: m)
  case Nil
  then show ?case by (simp split: if_splits)
next
  case (Cons c cs)
  show ?case
  proof (cases "HasPrefix (c # cs) sep")
    case True
    with Cons.prems have "m = 0" by simp
    moreover from True have "c # cs = sep @ drop (length sep) (c # cs)"
      by (metis HasPrefix_def append_take_drop_id)
    ultimately show ?thesis by simp
  next
    case False
    with Cons.prems obtain k where k: "Index cs sep = Some k" and m: "m = Suc k"
      by auto
    from Cons.IH [OF k] have split: "cs = take k cs @ sep @ drop (k + length sep) cs"
      and first: "\<forall>u v. cs = u @ sep @ v \<longrightarrow> k \<le> length u"
      by simp_all
    have "m \<le> length u" if "c # cs = u @ sep @ v" for u v
    proof (cases u)
      case Nil
      with that False show ?thesis by (simp add: HasPrefix_iff)
    next
      case (Cons a u')
      with that have "cs = u' @ sep @ v" by simp
      with first have "k \<le> length u'" by blast
      with Cons m show ?thesis by simp
    qed
    moreover from split m have "c # cs = take m (c # cs) @ sep @ drop (m + length sep) (c # cs)"
      by simp
    ultimately show ?thesis by blast
  qed
qed

lemma Split_not_Nil: "sep \<noteq> [] \<Longrightarrow> Split s sep \<noteq> []"
  by (subst Split.simps) (simp split: option.splits)


lemma occurrences_do_not_overlap:
  assumes eq: "u1 @ (b @ [c]) @ v1 = u2 @ (b @ [c]) @ v2"
    and fresh: "c \<notin> set b" and less: "length u1 < length u2"
  shows "length u1 + length (b @ [c]) \<le> length u2"
proof (rule ccontr)
  assume "\<not> length u1 + length (b @ [c]) \<le> length u2"
  then have near: "length u2 \<le> length u1 + length b"
    by simp
  let ?i = "length u1 + length b"
  have "(u1 @ (b @ [c]) @ v1) ! ?i = c"
    by (simp add: nth_append)
  moreover from near less have "(u2 @ (b @ [c]) @ v2) ! ?i = b ! (?i - length u2)"
    by (auto simp: nth_append)
  moreover from less near have "?i - length u2 < length b"
    by arith
  ultimately have "c \<in> set b"
    using eq by (metis nth_mem)
  with fresh show False ..
qed

lemma last_occurrence_exists:
  assumes "s = u @ sep @ v"
  shows "\<exists>dir name. s = dir @ sep @ name \<and>
           (\<forall>dir' rest. s = dir' @ sep @ rest \<longrightarrow> length dir' \<le> length dir)"
proof -
  let ?N = "{n. \<exists>dir name. s = dir @ sep @ name \<and> length dir = n}"
  have "?N \<subseteq> {..length s}"
    by auto
  then have fin: "finite ?N"
    by (rule finite_subset) simp
  from assms have "length u \<in> ?N"
    by blast
  then have ne: "?N \<noteq> {}"
    by blast
  from Max_in [OF fin ne] obtain dir name where "s = dir @ sep @ name" and "length dir = Max ?N"
    by blast
  moreover have "length dir' \<le> Max ?N" if "s = dir' @ sep @ rest" for dir' rest
    using that by (intro Max_ge [OF fin]) blast
  ultimately show ?thesis by metis
qed

lemma nothing_after_last_occurrence:
  assumes "s = dir @ sep @ name"
    and "\<forall>dir' rest. s = dir' @ sep @ rest \<longrightarrow> length dir' \<le> length dir"
    and "sep \<noteq> []"
  shows "\<not> (\<exists>a b. name = a @ sep @ b)"
proof
  assume "\<exists>a b. name = a @ sep @ b"
  then obtain a b where "name = a @ sep @ b" by blast
  with assms(1) have "s = (dir @ sep @ a) @ sep @ b" by simp
  with assms(2) have "length (dir @ sep @ a) \<le> length dir" by blast
  with assms(3) show False by simp
qed

lemma last_Split:
  assumes fresh: "c \<notin> set b"
  shows "s = dir @ (b @ [c]) @ name \<Longrightarrow> \<not> (\<exists>x y. name = x @ (b @ [c]) @ y) \<Longrightarrow>
         last (Split s (b @ [c])) = name"
proof (induction s "b @ [c]" arbitrary: dir rule: Split.induct)
  case (1 s)
  let ?sep = "b @ [c]"
  from "1.prems"(1) have "Index s ?sep \<noteq> None"
    by (metis Index_None_iff)
  then obtain m where m: "Index s ?sep = Some m"
    by blast
  from Index_Some [OF m] have split: "s = take m s @ ?sep @ drop (m + length ?sep) s"
    and first: "\<forall>u v. s = u @ ?sep @ v \<longrightarrow> m \<le> length u"
    by blast+
  let ?rest = "drop (m + length ?sep) s"
  have unfold: "Split s ?sep = take m s # Split ?rest ?sep"
    using m by (subst Split.simps) simp
  from first "1.prems"(1) have "m \<le> length dir"
    by blast
  then consider "m = length dir" | "m < length dir"
    by arith
  then show ?case
  proof cases
    case 1
    with "1.prems"(1) have "?rest = name"
      by simp
    moreover from "1.prems"(2) have "Index name ?sep = None"
      by (simp add: Index_None_iff)
    then have "Split name ?sep = [name]"
      by (subst Split.simps) simp
    ultimately show ?thesis
      using unfold by simp
  next
    case 2
    have "length (take m s) = m"
      using split by (metis "1.prems"(1) 2 length_append length_take less_imp_le_nat min.absorb2 trans_le_add1)
    with 2 have "length (take m s) < length dir"
      by simp
    from occurrences_do_not_overlap [OF _ fresh this, of ?rest name] split "1.prems"(1)
    have far: "m + length ?sep \<le> length dir"
      using \<open>length (take m s) = m\<close> by simp
    with "1.prems"(1) have "?rest = drop (m + length ?sep) dir @ ?sep @ name"
      by simp
    from "1.hyps" [OF _ m this "1.prems"(2)] have "last (Split ?rest ?sep) = name"
      by simp
    moreover have "Split ?rest ?sep \<noteq> []"
      by (rule Split_not_Nil) simp
    ultimately show ?thesis
      using unfold by simp
  qed
qed


lemma match_here_literal:
  "match_here (literal l @ re) s \<longleftrightarrow> (\<exists>s'. s = l @ s' \<and> match_here re s')"
proof (induction l arbitrary: s)
  case Nil
  show ?case by (simp add: literal_def)
next
  case (Cons a l)
  then show ?case
    by (cases s) (auto simp: literal_def)
qed

lemma match_here_One:
  "match_here (One a # re) s \<longleftrightarrow> (\<exists>c s'. s = c # s' \<and> atom_matches a c \<and> match_here re s')"
  by (cases s) simp_all

lemma match_here_Star:
  "match_here (Star a # re) s \<longleftrightarrow>
     (\<exists>x s'. s = x @ s' \<and> (\<forall>c \<in> set x. atom_matches a c) \<and> match_here re s')"
proof (induction s)
  case Nil
  show ?case by simp
next
  case (Cons c s)
  show ?case
  proof
    assume "match_here (Star a # re) (c # s)"
    then consider "match_here re (c # s)" | "atom_matches a c" "match_here (Star a # re) s"
      by auto
    then show "\<exists>x s'. c # s = x @ s' \<and> (\<forall>c \<in> set x. atom_matches a c) \<and> match_here re s'"
    proof cases
      case 1
      then have "c # s = [] @ c # s \<and> (\<forall>c \<in> set []. atom_matches a c) \<and> match_here re (c # s)"
        by simp
      then show ?thesis by blast
    next
      case 2
      with Cons obtain x s' where "s = x @ s'" "\<forall>c \<in> set x. atom_matches a c" "match_here re s'"
        by blast
      with 2 have "c # s = (c # x) @ s' \<and> (\<forall>d \<in> set (c # x). atom_matches a d) \<and> match_here re s'"
        by simp
      then show ?thesis by blast
    qed
  next
    assume "\<exists>x s'. c # s = x @ s' \<and> (\<forall>c \<in> set x. atom_matches a c) \<and> match_here re s'"
    then obtain x s' where x: "c # s = x @ s'" "\<forall>c \<in> set x. atom_matches a c" "match_here re s'"
      by blast
    show "match_here (Star a # re) (c # s)"
    proof (cases x)
      case Nil
      with x have "match_here re (c # s)" by simp
      then show ?thesis by simp
    next
      case (Cons d x')
      with x have "s = x' @ s'" "\<forall>c \<in> set x'. atom_matches a c" "atom_matches a c"
        by simp_all
      with x(3) Cons.IH show ?thesis by auto
    qed
  qed
qed

lemma regexp_Match_iff: "regexp_Match re s \<longleftrightarrow> (\<exists>u s'. s = u @ s' \<and> match_here re s')"
proof (induction s)
  case Nil
  show ?case by simp
next
  case (Cons c s)
  show ?case
  proof
    assume "regexp_Match re (c # s)"
    then consider "match_here re (c # s)" | "regexp_Match re s"
      by auto
    then show "\<exists>u s'. c # s = u @ s' \<and> match_here re s'"
    proof cases
      case 1
      then have "c # s = [] @ c # s \<and> match_here re (c # s)" by simp
      then show ?thesis by blast
    next
      case 2
      with Cons obtain u s' where "s = u @ s'" "match_here re s'" by blast
      then have "c # s = (c # u) @ s' \<and> match_here re s'" by simp
      then show ?thesis by blast
    qed
  next
    assume "\<exists>u s'. c # s = u @ s' \<and> match_here re s'"
    then obtain u s' where u: "c # s = u @ s'" "match_here re s'" by blast
    show "regexp_Match re (c # s)"
    proof (cases u)
      case Nil
      with u have "match_here re (c # s)" by simp
      then show ?thesis by simp
    next
      case (Cons d u')
      with u have "s = u' @ s'" by simp
      with u(2) Cons.IH show ?thesis by auto
    qed
  qed
qed

text \<open>The texts that the pattern of the template files matches.\<close>

lemma isTemplateFile_iff:
  "isTemplateFile name \<longleftrightarrow>
     (\<exists>u x c v. name = u @ ''templates/'' @ x @ [c] @ ''yaml'' @ v \<and> newline \<notin> set (x @ [c]))"
proof -
  have "match_here templateFileNameRegex s \<longleftrightarrow>
      (\<exists>x c v. s = ''templates/'' @ x @ [c] @ ''yaml'' @ v \<and> newline \<notin> set (x @ [c]))" for s
  proof -
    have "match_here templateFileNameRegex s \<longleftrightarrow>
        (\<exists>s1. s = ''templates/'' @ s1 \<and>
          (\<exists>x s2. s1 = x @ s2 \<and> (\<forall>c \<in> set x. atom_matches AnyCharNotNL c) \<and>
            (\<exists>c s3. s2 = c # s3 \<and> atom_matches AnyCharNotNL c \<and>
              (\<exists>v. s3 = ''yaml'' @ v))))"
      unfolding templateFileNameRegex_def match_here_literal
      using match_here_literal [of "''yaml''" "[]"]
      by (simp only: append_Cons append_Nil match_here_Star match_here_One append_Nil2
            match_here.simps(1) simp_thms)
    also have "\<dots> \<longleftrightarrow>
        (\<exists>x c v. s = ''templates/'' @ x @ [c] @ ''yaml'' @ v \<and> newline \<notin> set (x @ [c]))"
    proof
      assume "\<exists>s1. s = ''templates/'' @ s1 \<and>
          (\<exists>x s2. s1 = x @ s2 \<and> (\<forall>c \<in> set x. atom_matches AnyCharNotNL c) \<and>
            (\<exists>c s3. s2 = c # s3 \<and> atom_matches AnyCharNotNL c \<and>
              (\<exists>v. s3 = ''yaml'' @ v)))"
      then obtain x c v where "s = ''templates/'' @ x @ [c] @ ''yaml'' @ v"
        and "\<forall>d \<in> set x. atom_matches AnyCharNotNL d" and "atom_matches AnyCharNotNL c"
        by auto
      then have "s = ''templates/'' @ x @ [c] @ ''yaml'' @ v \<and> newline \<notin> set (x @ [c])"
        by auto
      then show "\<exists>x c v. s = ''templates/'' @ x @ [c] @ ''yaml'' @ v \<and> newline \<notin> set (x @ [c])"
        by blast
    next
      assume "\<exists>x c v. s = ''templates/'' @ x @ [c] @ ''yaml'' @ v \<and> newline \<notin> set (x @ [c])"
      then obtain x c v where s: "s = ''templates/'' @ x @ [c] @ ''yaml'' @ v"
        and nl: "newline \<notin> set (x @ [c])"
        by blast
      from nl have "x @ [c] @ ''yaml'' @ v = x @ (c # ''yaml'' @ v) \<and>
          (\<forall>d \<in> set x. atom_matches AnyCharNotNL d) \<and>
          (\<exists>c' s3. c # ''yaml'' @ v = c' # s3 \<and> atom_matches AnyCharNotNL c' \<and>
              (\<exists>v. s3 = ''yaml'' @ v))"
        by auto
      with s show "\<exists>s1. s = ''templates/'' @ s1 \<and>
          (\<exists>x s2. s1 = x @ s2 \<and> (\<forall>c \<in> set x. atom_matches AnyCharNotNL c) \<and>
            (\<exists>c s3. s2 = c # s3 \<and> atom_matches AnyCharNotNL c \<and>
              (\<exists>v. s3 = ''yaml'' @ v)))"
        by blast
    qed
    finally show ?thesis .
  qed
  then show ?thesis
    by (simp only: isTemplateFile_def regexp_Match_iff) blast
qed

section \<open>Properties of the template files\<close>

lemma derived_template_name:
  assumes "filePath = dir @ ''templates/'' @ name"
    and "\<not> (\<exists>x y. name = x @ ''templates/'' @ y)"
  shows "last (Split filePath ''templates/'') = name"
proof -
  have sep: "''templates/'' = ''templates'' @ [CHR ''/'']"
    by simp
  have "CHR ''/'' \<notin> set ''templates''"
    by simp
  from last_Split [OF this, of filePath dir name] assms show ?thesis
    unfolding sep by blast
qed

lemma template_name_is_stripped_path:
  assumes "isTemplateFile filePath"
  shows "\<exists>dir name. filePath = dir @ ''templates/'' @ name \<and>
           (\<forall>dir' rest. filePath = dir' @ ''templates/'' @ rest \<longrightarrow> length dir' \<le> length dir) \<and>
           last (Split filePath ''templates/'') = name"
proof -
  from assms obtain u v where "filePath = u @ ''templates/'' @ v"
    unfolding isTemplateFile_iff by blast
  from last_occurrence_exists [OF this] obtain dir name
    where split: "filePath = dir @ ''templates/'' @ name"
      and last: "\<forall>dir' rest. filePath = dir' @ ''templates/'' @ rest \<longrightarrow> length dir' \<le> length dir"
    by blast
  from nothing_after_last_occurrence [OF split last]
  have "\<not> (\<exists>x y. name = x @ ''templates/'' @ y)"
    by simp
  from derived_template_name [OF split this] split last show ?thesis
    by blast
qed

lemma parsePackageFile_template:
  assumes "\<not> isOperatorFile filePath" and "isTemplateFile filePath"
    and "PackageFiles.Templates currentPackage = Some templates"
  shows "parsePackageFile unmarshalOperator unmarshalParams filePath fileBytes currentPackage =
     Returns (Inr (currentPackage\<lparr>PackageFiles.Templates :=
       Some (templates(last (Split filePath ''templates/'') \<mapsto> fileBytes))\<rparr>))"
proof -
  have "Split filePath ''templates/'' \<noteq> []"
    by (rule Split_not_Nil) simp
  with assms show ?thesis
    by (simp add: parsePackageFile_def Let_def last_conv_nth)
qed

lemma template_path_is_template_file:
  assumes "newline \<notin> set stem"
  shows "isTemplateFile (dir @ ''templates/'' @ stem @ ''.yaml'')"
proof -
  have "dir @ ''templates/'' @ stem @ ''.yaml'' =
      dir @ ''templates/'' @ stem @ [CHR ''.''] @ ''yaml'' @ [] \<and>
      newline \<notin> set (stem @ [CHR ''.''])"
    using assms by (simp add: newline_def)
  then show ?thesis
    unfolding isTemplateFile_iff by blast
qed

lemma foo_yaml_is_template_file:
  "\<not> isOperatorFile (dir @ ''templates/foo.yaml'')"
  "isTemplateFile (dir @ ''templates/foo.yaml'')"
  "last (Split (dir @ ''templates/foo.yaml'') ''templates/'') = ''foo.yaml''"
proof -
  show "\<not> isOperatorFile (dir @ ''templates/foo.yaml'')"
    by (simp add: isOperatorFile_def HasSuffix_def operatorFileName_def)
  show "isTemplateFile (dir @ ''templates/foo.yaml'')"
    using template_path_is_template_file [of "''foo''" dir] by (simp add: newline_def)
  have "Index ''foo.yaml'' ''templates/'' = None"
    by (simp add: HasPrefix_def)
  then have "\<not> (\<exists>x y. ''foo.yaml'' = x @ ''templates/'' @ y)"
    using Index_None_iff [of "''foo.yaml''" "''templates/''"] by blast
  from derived_template_name [OF _ this, of "dir @ ''templates/foo.yaml''" dir]
  show "last (Split (dir @ ''templates/foo.yaml'') ''templates/'') = ''foo.yaml''"
    by simp
qed

lemma sub_foo_yaml_is_template_file:
  "\<not> isOperatorFile (dir @ ''templates/sub/foo.yaml'')"
  "isTemplateFile (dir @ ''templates/sub/foo.yaml'')"
  "last (Split (dir @ ''templates/sub/foo.yaml'') ''templates/'') = ''sub/foo.yaml''"
proof -
  show "\<not> isOperatorFile (dir @ ''templates/sub/foo.yaml'')"
    by (simp add: isOperatorFile_def HasSuffix_def operatorFileName_def)
  show "isTemplateFile (dir @ ''templates/sub/foo.yaml'')"
    using template_path_is_template_file [of "''sub/foo''" dir] by (simp add: newline_def)
  have "Index ''sub/foo.yaml'' ''templates/'' = None"
    by (simp add: HasPrefix_def)
  then have "\<not> (\<exists>x y. ''sub/foo.yaml'' = x @ ''templates/'' @ y)"
    using Index_None_iff [of "''sub/foo.yaml''" "''templates/''"] by blast
  from derived_template_name [OF _ this, of "dir @ ''templates/sub/foo.yaml''" dir]
  show "last (Split (dir @ ''templates/sub/foo.yaml'') ''templates/'') = ''sub/foo.yaml''"
    by simp
qed

text \<open>
  Claim C6.  For a bundle whose template map exists: a path classified as a template
  file (not ending in \<^verbatim>\<open>operator.yaml\<close>, matching the pattern) is cut behind its last
  occurrence of \<^verbatim>\<open>templates/\<close>, no occurrence starting further right, and the contents
  are stored under what follows; so a path ending in \<^verbatim>\<open>templates/foo.yaml\<close> is stored
  under \<^verbatim>\<open>foo.yaml\<close> and one ending in \<^verbatim>\<open>templates/sub/foo.yaml\<close> under
  \<^verbatim>\<open>sub/foo.yaml\<close>; and after a later file that gives the same key, the key holds the
  later contents.
\<close>

theorem template_is_stored_under_stripped_path:
  assumes "PackageFiles.Templates currentPackage = Some templates"
  shows
    "(\<not> isOperatorFile filePath \<and> isTemplateFile filePath \<longrightarrow>
        (\<exists>dir name.
           filePath = dir @ ''templates/'' @ name \<and>
           (\<forall>dir' rest. filePath = dir' @ ''templates/'' @ rest \<longrightarrow> length dir' \<le> length dir) \<and>
           parsePackageFile unmarshalOperator unmarshalParams filePath fileBytes currentPackage =
             Returns (Inr (currentPackage\<lparr>PackageFiles.Templates :=
               Some (templates(name \<mapsto> fileBytes))\<rparr>)))) \<and>
     parsePackageFile unmarshalOperator unmarshalParams (parent @ ''templates/foo.yaml'')
         fileBytes currentPackage =
       Returns (Inr (currentPackage\<lparr>PackageFiles.Templates :=
         Some (templates(''foo.yaml'' \<mapsto> fileBytes))\<rparr>)) \<and>
     parsePackageFile unmarshalOperator unmarshalParams (parent @ ''templates/sub/foo.yaml'')
         fileBytes currentPackage =
       Returns (Inr (currentPackage\<lparr>PackageFiles.Templates :=
         Some (templates(''sub/foo.yaml'' \<mapsto> fileBytes))\<rparr>)) \<and>
     (\<not> isOperatorFile filePath \<and> isTemplateFile filePath \<and>
      \<not> isOperatorFile laterPath \<and> isTemplateFile laterPath \<and>
      last (Split laterPath ''templates/'') = last (Split filePath ''templates/'') \<longrightarrow>
        (\<exists>first.
           parsePackageFile unmarshalOperator unmarshalParams filePath fileBytes currentPackage =
             Returns (Inr first) \<and>
           parsePackageFile unmarshalOperator unmarshalParams laterPath laterBytes first =
             Returns (Inr (currentPackage\<lparr>PackageFiles.Templates :=
               Some (templates(last (Split filePath ''templates/'') \<mapsto> laterBytes))\<rparr>))))"
proof (intro conjI)
  show "\<not> isOperatorFile filePath \<and> isTemplateFile filePath \<longrightarrow>
        (\<exists>dir name.
           filePath = dir @ ''templates/'' @ name \<and>
           (\<forall>dir' rest. filePath = dir' @ ''templates/'' @ rest \<longrightarrow> length dir' \<le> length dir) \<and>
           parsePackageFile unmarshalOperator unmarshalParams filePath fileBytes currentPackage =
             Returns (Inr (currentPackage\<lparr>PackageFiles.Templates :=
               Some (templates(name \<mapsto> fileBytes))\<rparr>)))"
  proof
    assume template: "\<not> isOperatorFile filePath \<and> isTemplateFile filePath"
    then have kind: "\<not> isOperatorFile filePath" "isTemplateFile filePath"
      by simp_all
    from template_name_is_stripped_path [OF kind(2)]
    obtain dir name where split: "filePath = dir @ ''templates/'' @ name"
      and last: "\<forall>dir' rest. filePath = dir' @ ''templates/'' @ rest \<longrightarrow>
                   length dir' \<le> length dir"
      and name: "last (Split filePath ''templates/'') = name"
      by blast
    from parsePackageFile_template [OF kind assms]
    have parse: "parsePackageFile unmarshalOperator unmarshalParams filePath fileBytes
          currentPackage =
        Returns (Inr (currentPackage\<lparr>PackageFiles.Templates :=
          Some (templates(name \<mapsto> fileBytes))\<rparr>))"
      unfolding name .
    show "\<exists>dir name.
           filePath = dir @ ''templates/'' @ name \<and>
           (\<forall>dir' rest. filePath = dir' @ ''templates/'' @ rest \<longrightarrow> length dir' \<le> length dir) \<and>
           parsePackageFile unmarshalOperator unmarshalParams filePath fileBytes currentPackage =
             Returns (Inr (currentPackage\<lparr>PackageFiles.Templates :=
               Some (templates(name \<mapsto> fileBytes))\<rparr>))"
    proof (intro exI conjI)
      show "filePath = dir @ ''templates/'' @ name"
        by (rule split)
      show "\<forall>dir' rest. filePath = dir' @ ''templates/'' @ rest \<longrightarrow> length dir' \<le> length dir"
        by (rule last)
      show "parsePackageFile unmarshalOperator unmarshalParams filePath fileBytes currentPackage =
             Returns (Inr (currentPackage\<lparr>PackageFiles.Templates :=
               Some (templates(name \<mapsto> fileBytes))\<rparr>))"
        by (rule parse)
    qed
  qed
  show "parsePackageFile unmarshalOperator unmarshalParams (parent @ ''templates/foo.yaml'')
         fileBytes currentPackage =
       Returns (Inr (currentPackage\<lparr>PackageFiles.Templates :=
         Some (templates(''foo.yaml'' \<mapsto> fileBytes))\<rparr>))"
    using parsePackageFile_template [OF foo_yaml_is_template_file(1,2) assms]
    by (simp only: foo_yaml_is_template_file(3))
  show "parsePackageFile unmarshalOperator unmarshalParams (parent @ ''templates/sub/foo.yaml'')
         fileBytes currentPackage =
       Returns (Inr (currentPackage\<lparr>PackageFiles.Templates :=
         Some (templates(''sub/foo.yaml'' \<mapsto> fileBytes))\<rparr>))"
    using parsePackageFile_template [OF sub_foo_yaml_is_template_file(1,2) assms]
    by (simp only: sub_foo_yaml_is_template_file(3))
  show "\<not> isOperatorFile filePath \<and> isTemplateFile filePath \<and>
      \<not> isOperatorFile laterPath \<and> isTemplateFile laterPath \<and>
      last (Split laterPath ''templates/'') = last (Split filePath ''templates/'') \<longrightarrow>
        (\<exists>first.
           parsePackageFile unmarshalOperator unmarshalParams filePath fileBytes currentPackage =
             Returns (Inr first) \<and>
           parsePackageFile unmarshalOperator unmarshalParams laterPath laterBytes first =
             Returns (Inr (currentPackage\<lparr>PackageFiles.Templates :=
               Some (templates(last (Split filePath ''templates/'') \<mapsto> laterBytes))\<rparr>)))"
  proof
    assume both: "\<not> isOperatorFile filePath \<and> isTemplateFile filePath \<and>
      \<not> isOperatorFile laterPath \<and> isTemplateFile laterPath \<and>
      last (Split laterPath ''templates/'') = last (Split filePath ''templates/'')"
    let ?name = "last (Split filePath ''templates/'')"
    let ?first = "currentPackage\<lparr>PackageFiles.Templates := Some (templates(?name \<mapsto> fileBytes))\<rparr>"
    from both have earlier: "\<not> isOperatorFile filePath" "isTemplateFile filePath"
      and later: "\<not> isOperatorFile laterPath" "isTemplateFile laterPath"
      and same: "last (Split laterPath ''templates/'') = ?name"
      by simp_all
    have one: "parsePackageFile unmarshalOperator unmarshalParams filePath fileBytes currentPackage =
        Returns (Inr ?first)"
      by (rule parsePackageFile_template [OF earlier assms])
    have stored: "PackageFiles.Templates ?first = Some (templates(?name \<mapsto> fileBytes))"
      by simp
    have "parsePackageFile unmarshalOperator unmarshalParams laterPath laterBytes ?first =
        Returns (Inr (?first\<lparr>PackageFiles.Templates :=
          Some ((templates(?name \<mapsto> fileBytes))(?name \<mapsto> laterBytes))\<rparr>))"
      using parsePackageFile_template [OF later stored] unfolding same .
    then have two: "parsePackageFile unmarshalOperator unmarshalParams laterPath laterBytes ?first =
        Returns (Inr (currentPackage\<lparr>PackageFiles.Templates :=
          Some (templates(?name \<mapsto> laterBytes))\<rparr>))"
      by simp
    from one two show "\<exists>first.
           parsePackageFile unmarshalOperator unmarshalParams filePath fileBytes currentPackage =
             Returns (Inr first) \<and>
           parsePackageFile unmarshalOperator unmarshalParams laterPath laterBytes first =
             Returns (Inr (currentPackage\<lparr>PackageFiles.Templates :=
               Some (templates(last (Split filePath ''templates/'') \<mapsto> laterBytes))\<rparr>))"
      by (intro exI [of _ ?first] conjI)
  qed
qed


text \<open>Without a template map the assignment panics, as a write to a \<^verbatim>\<open>nil\<close> map does.\<close>

lemma parsePackageFile_nil_templates:
  assumes "\<not> isOperatorFile filePath" and "isTemplateFile filePath"
    and "PackageFiles.Templates currentPackage = None"
  shows "parsePackageFile unmarshalOperator unmarshalParams filePath fileBytes currentPackage =
     Panics ''assignment to entry in nil map''"
proof -
  have "Split filePath ''templates/'' \<noteq> []"
    by (rule Split_not_Nil) simp
  with assms show ?thesis
    by (simp add: parsePackageFile_def Let_def)
qed

theorem template_is_stored_under_stripped_path_witness:
  "(\<exists>dir name.
      ''zookeeper/templates/foo.yaml'' = dir @ ''templates/'' @ name \<and>
      (\<forall>dir' rest. ''zookeeper/templates/foo.yaml'' = dir' @ ''templates/'' @ rest \<longrightarrow>
         length dir' \<le> length dir) \<and>
      parsePackageFile example_unmarshalOperator example_unmarshalParams
          ''zookeeper/templates/foo.yaml'' ''kind: Service'' newPackageFiles =
        Returns (Inr (newPackageFiles\<lparr>PackageFiles.Templates :=
          Some (Map.empty(name \<mapsto> ''kind: Service''))\<rparr>))) \<and>
   parsePackageFile example_unmarshalOperator example_unmarshalParams
       ''zookeeper/templates/foo.yaml'' ''kind: Service'' newPackageFiles =
     Returns (Inr (newPackageFiles\<lparr>PackageFiles.Templates :=
       Some [''foo.yaml'' \<mapsto> ''kind: Service'']\<rparr>)) \<and>
   parsePackageFile example_unmarshalOperator example_unmarshalParams
       ''zookeeper/templates/sub/foo.yaml'' ''kind: Service'' newPackageFiles =
     Returns (Inr (newPackageFiles\<lparr>PackageFiles.Templates :=
       Some [''sub/foo.yaml'' \<mapsto> ''kind: Service'']\<rparr>)) \<and>
   (\<exists>first.
      parsePackageFile example_unmarshalOperator example_unmarshalParams
          ''zookeeper/templates/foo.yaml'' ''kind: Service'' newPackageFiles =
        Returns (Inr first) \<and>
      parsePackageFile example_unmarshalOperator example_unmarshalParams
          ''kafka/templates/foo.yaml'' ''kind: Pod'' first =
        Returns (Inr (newPackageFiles\<lparr>PackageFiles.Templates :=
          Some [''foo.yaml'' \<mapsto> ''kind: Pod'']\<rparr>)))"
proof -
  have templates:
    "PackageFiles.Templates (newPackageFiles :: (string, string) PackageFiles) = Some Map.empty"
    by (simp add: newPackageFiles_def)
  have zookeeper: "''zookeeper/templates/foo.yaml'' = ''zookeeper/'' @ ''templates/foo.yaml''"
    and kafka: "''kafka/templates/foo.yaml'' = ''kafka/'' @ ''templates/foo.yaml''"
    and nested: "''zookeeper/templates/sub/foo.yaml'' = ''zookeeper/'' @ ''templates/sub/foo.yaml''"
    by simp_all
  have earlier: "\<not> isOperatorFile ''zookeeper/templates/foo.yaml'' \<and>
      isTemplateFile ''zookeeper/templates/foo.yaml''"
    unfolding zookeeper using foo_yaml_is_template_file(1,2) by blast
  have name: "last (Split ''zookeeper/templates/foo.yaml'' ''templates/'') = ''foo.yaml''"
    unfolding zookeeper by (rule foo_yaml_is_template_file(3))
  have later: "\<not> isOperatorFile ''kafka/templates/foo.yaml'' \<and>
      isTemplateFile ''kafka/templates/foo.yaml''"
    unfolding kafka using foo_yaml_is_template_file(1,2) by blast
  have same: "last (Split ''kafka/templates/foo.yaml'' ''templates/'') =
      last (Split ''zookeeper/templates/foo.yaml'' ''templates/'')"
    unfolding name unfolding kafka by (rule foo_yaml_is_template_file(3))
  note stored = template_is_stored_under_stripped_path
    [where currentPackage = "newPackageFiles :: (string, string) PackageFiles"
       and templates = Map.empty
       and unmarshalOperator = example_unmarshalOperator
       and unmarshalParams = example_unmarshalParams
       and filePath = "''zookeeper/templates/foo.yaml''" and fileBytes = "''kind: Service''"
       and parent = "''zookeeper/''"
       and laterPath = "''kafka/templates/foo.yaml''" and laterBytes = "''kind: Pod''",
     OF templates, unfolded name]
  from later same [unfolded name]
  have both: "\<not> isOperatorFile ''zookeeper/templates/foo.yaml'' \<and>
      isTemplateFile ''zookeeper/templates/foo.yaml'' \<and>
      \<not> isOperatorFile ''kafka/templates/foo.yaml'' \<and>
      isTemplateFile ''kafka/templates/foo.yaml'' \<and>
      last (Split ''kafka/templates/foo.yaml'' ''templates/'') = ''foo.yaml''"
    using earlier by blast
  note stripped = stored [THEN conjunct1, THEN mp, OF earlier]
    and flat = stored [THEN conjunct2, THEN conjunct1]
    and deep = stored [THEN conjunct2, THEN conjunct2, THEN conjunct1]
    and overwritten = stored [THEN conjunct2, THEN conjunct2, THEN conjunct2, THEN mp, OF both]
  from stripped flat deep overwritten show ?thesis
    by simp
qed

section \<open>Properties of the parameters file\<close>

lemma parseParameter_no_required:
  "param ''required'' = None \<Longrightarrow>
   \<exists>r. parseParameter paramName param = Inr r \<and> Required r"
  by (simp add: parseParameter_def)

lemma parseParameter_bad_required:
  "param ''required'' = Some v \<Longrightarrow> ParseBool v = Inl e \<Longrightarrow>
   parseParameter paramName param =
     Inl (Wrap e (''failed parsing required field from parameter '' @ paramName
            @ ''. cannot convert '' @ v @ '' to bool''))"
  by (simp add: parseParameter_def)

lemma parseParameter_Inr:
  assumes "parseParameter paramName param = Inr r"
  shows "Parameter.Name r = paramName" and "Default r = param ''default''"
    and "param ''required'' = None \<Longrightarrow> Required r"
  using assms
  by (auto simp: parseParameter_def kudo_String_def split: option.splits sum.splits)

lemma parseParameters_Inr:
  "parseParameters params paramsStruct = Inr ps \<Longrightarrow>
   \<exists>rs. ps = paramsStruct @ rs \<and>
     list_all2 (\<lambda>(paramName, param) r. parseParameter paramName param = Inr r) params rs"
proof (induction params arbitrary: paramsStruct)
  case Nil
  then show ?case by simp
next
  case (Cons entry params)
  obtain paramName param where entry: "entry = (paramName, param)"
    by (cases entry)
  with Cons.prems obtain r where r: "parseParameter paramName param = Inr r"
    and rest: "parseParameters params (paramsStruct @ [r]) = Inr ps"
    by (auto split: sum.splits)
  from Cons.IH [OF rest] obtain rs where "ps = (paramsStruct @ [r]) @ rs"
    and "list_all2 (\<lambda>(paramName, param) r. parseParameter paramName param = Inr r) params rs"
    by blast
  with r entry have "ps = paramsStruct @ (r # rs) \<and>
      list_all2 (\<lambda>(paramName, param) r. parseParameter paramName param = Inr r)
        (entry # params) (r # rs)"
    by simp
  then show ?case by blast
qed

lemma parseParameters_Inl:
  "(paramName, param) \<in> set params \<Longrightarrow> parseParameter paramName param = Inl e \<Longrightarrow>
   \<exists>err. parseParameters params paramsStruct = Inl err"
proof (induction params arbitrary: paramsStruct)
  case Nil
  then show ?case by simp
next
  case (Cons entry params)
  obtain n prm where entry: "entry = (n, prm)"
    by (cases entry)
  show ?case
  proof (cases "parseParameter n prm")
    case (Inl err)
    with entry show ?thesis by simp
  next
    case (Inr r)
    with Cons.prems entry have "(paramName, param) \<in> set params"
      by auto
    from Cons.IH [OF this Cons.prems(2)] Inr entry show ?thesis
      by simp
  qed
qed

lemma parsePackageFile_parameters:
  assumes "\<not> isOperatorFile filePath" and "\<not> isTemplateFile filePath"
    and "isParametersFile filePath" and "unmarshalParams fileBytes = Inr params"
  shows "parsePackageFile unmarshalOperator unmarshalParams filePath fileBytes currentPackage =
     (case parseParameters params [] of
        Inl err \<Rightarrow> Returns (Inl err)
      | Inr paramsStruct \<Rightarrow> Returns (Inr (currentPackage\<lparr>Params := Some paramsStruct\<rparr>)))"
  using assms by (simp add: parsePackageFile_def)

text \<open>
  Claim C5.  For a file classified as the parameters file that the decoder accepts: an
  entry without the key \<^verbatim>\<open>required\<close> gives a parameter with \<open>Required\<close> true; an
  entry whose \<^verbatim>\<open>required\<close> value \<^verbatim>\<open>strconv.ParseBool\<close> rejects gives an error, and
  \<^verbatim>\<open>parsePackageFile\<close> then returns an error instead of a package; and when
  \<^verbatim>\<open>parsePackageFile\<close> returns a package, its parameters are those of the entries, in
  order, each entry without the key having \<open>Required\<close> true.
\<close>

theorem required_defaults_to_true:
  assumes "\<not> isOperatorFile filePath" and "\<not> isTemplateFile filePath"
    and "isParametersFile filePath" and "unmarshalParams fileBytes = Inr params"
  shows
    "(param ''required'' = None \<longrightarrow>
        (\<exists>r. parseParameter paramName param = Inr r \<and> Required r)) \<and>
     (param ''required'' = Some v \<and> ParseBool v = Inl e \<longrightarrow>
        (\<exists>err. parseParameter paramName param = Inl err)) \<and>
     ((paramName, param) \<in> set params \<and> param ''required'' = Some v \<and> ParseBool v = Inl e \<longrightarrow>
        (\<exists>err. parsePackageFile unmarshalOperator unmarshalParams filePath fileBytes
                 currentPackage = Returns (Inl err))) \<and>
     (parsePackageFile unmarshalOperator unmarshalParams filePath fileBytes currentPackage =
        Returns (Inr parsed) \<longrightarrow>
        (\<exists>ps. Params parsed = Some ps \<and>
           list_all2 (\<lambda>(paramName, param) r. Parameter.Name r = paramName \<and>
                        (param ''required'' = None \<longrightarrow> Required r)) params ps))"
proof (intro conjI impI)
  assume "param ''required'' = None"
  then show "\<exists>r. parseParameter paramName param = Inr r \<and> Required r"
    by (rule parseParameter_no_required)
next
  assume "param ''required'' = Some v \<and> ParseBool v = Inl e"
  then show "\<exists>err. parseParameter paramName param = Inl err"
    by (simp add: parseParameter_bad_required)
next
  assume bad: "(paramName, param) \<in> set params \<and> param ''required'' = Some v \<and> ParseBool v = Inl e"
  then obtain err where "parseParameters params [] = Inl err"
    using parseParameters_Inl [of paramName param params _ "[]"] parseParameter_bad_required
    by blast
  then show "\<exists>err. parsePackageFile unmarshalOperator unmarshalParams filePath fileBytes
                 currentPackage = Returns (Inl err)"
    by (simp add: parsePackageFile_parameters [where unmarshalParams = unmarshalParams, OF assms])
next
  assume ok: "parsePackageFile unmarshalOperator unmarshalParams filePath fileBytes currentPackage =
        Returns (Inr parsed)"
  then obtain ps where ps: "parseParameters params [] = Inr ps"
    and parsed: "parsed = currentPackage\<lparr>Params := Some ps\<rparr>"
    by (auto simp: parsePackageFile_parameters [where unmarshalParams = unmarshalParams, OF assms] split: sum.splits)
  from parseParameters_Inr [OF ps]
  have "list_all2 (\<lambda>(paramName, param) r. parseParameter paramName param = Inr r) params ps"
    by simp
  then have "list_all2 (\<lambda>(paramName, param) r. Parameter.Name r = paramName \<and>
                        (param ''required'' = None \<longrightarrow> Required r)) params ps"
    by (rule list_all2_mono) (auto dest: parseParameter_Inr)
  with parsed show "\<exists>ps. Params parsed = Some ps \<and>
           list_all2 (\<lambda>(paramName, param) r. Parameter.Name r = paramName \<and>
                        (param ''required'' = None \<longrightarrow> Required r)) params ps"
    by simp
qed

lemma params_path_is_parameters_file:
  "\<not> isOperatorFile ''zookeeper/params.yaml''"
  "\<not> isTemplateFile ''zookeeper/params.yaml''"
  "isParametersFile ''zookeeper/params.yaml''"
  by (simp_all add: isOperatorFile_def isTemplateFile_def isParametersFile_def HasSuffix_def
        operatorFileName_def paramsFileName_def templateFileNameRegex_def literal_def)

lemma example_params_parsed:
  "parsePackageFile example_unmarshalOperator example_unmarshalParams
     ''zookeeper/params.yaml'' ''params'' newPackageFiles =
   Returns (Inr (newPackageFiles\<lparr>Params := Some
     [\<lparr>Parameter.Name = ''replicas'', Description = ''Number of nodes'', Default = Some ''3'',
        Trigger = [], Required = True, DisplayName = []\<rparr>,
      \<lparr>Parameter.Name = ''password'', Description = [], Default = Some [],
        Trigger = [], Required = True, DisplayName = []\<rparr>,
      \<lparr>Parameter.Name = ''image'', Description = [], Default = None,
        Trigger = [], Required = False, DisplayName = ''Image''\<rparr>]\<rparr>))"
proof -
  have "example_unmarshalParams ''params'' = Inr example_params"
    by (simp add: example_unmarshalParams_def)
  from parsePackageFile_parameters
         [where unmarshalParams = example_unmarshalParams, OF params_path_is_parameters_file this]
  show ?thesis
    by (simp add: example_params_def parseParameter_def ParseBool_def kudo_String_def
          index_or_empty_def)
qed

theorem required_defaults_to_true_witness:
  "(\<exists>r. parseParameter ''replicas'' [''default'' \<mapsto> ''3''] = Inr r \<and> Required r) \<and>
   (\<exists>err. parseParameter ''password'' [''required'' \<mapsto> ''yes''] = Inl err) \<and>
   (\<exists>err. parsePackageFile example_unmarshalOperator example_unmarshalParams
      ''zookeeper/params.yaml'' ''malformed'' newPackageFiles = Returns (Inl err)) \<and>
   (\<exists>parsed ps.
      parsePackageFile example_unmarshalOperator example_unmarshalParams
        ''zookeeper/params.yaml'' ''params'' newPackageFiles = Returns (Inr parsed) \<and>
      Params parsed = Some ps \<and>
      list_all2 (\<lambda>(paramName, param) r. Parameter.Name r = paramName \<and>
                   (param ''required'' = None \<longrightarrow> Required r)) example_params ps)"
proof -
  have good: "example_unmarshalParams ''params'' = Inr example_params"
    and bad: "example_unmarshalParams ''malformed'' = Inr malformed_params"
    by (simp_all add: example_unmarshalParams_def)
  have absent: "[''default'' \<mapsto> ''3''] ''required'' = None"
    by simp
  have unparseable: "(''password'', [''required'' \<mapsto> ''yes'']) \<in> set malformed_params \<and>
      [''required'' \<mapsto> ''yes''] ''required'' = Some ''yes'' \<and>
      ParseBool ''yes'' = Inl (NumError ''ParseBool'' ''yes'' ''invalid syntax'')"
    by (simp add: malformed_params_def ParseBool_def)
  note malformed = required_defaults_to_true
    [where unmarshalParams = example_unmarshalParams and unmarshalOperator = example_unmarshalOperator
       and currentPackage = newPackageFiles
       and paramName = "''password''" and param = "[''required'' \<mapsto> ''yes'']" and v = "''yes''"
       and e = "NumError ''ParseBool'' ''yes'' ''invalid syntax''",
     OF params_path_is_parameters_file bad]
  note wellformed = required_defaults_to_true
    [where unmarshalParams = example_unmarshalParams and unmarshalOperator = example_unmarshalOperator
       and currentPackage = newPackageFiles
       and paramName = "''replicas''" and param = "[''default'' \<mapsto> ''3'']",
     OF params_path_is_parameters_file good]
  from wellformed absent
  have "\<exists>r. parseParameter ''replicas'' [''default'' \<mapsto> ''3''] = Inr r \<and> Required r"
    by blast
  moreover from malformed unparseable
  have "\<exists>err. parseParameter ''password'' [''required'' \<mapsto> ''yes''] = Inl err"
    and "\<exists>err. parsePackageFile example_unmarshalOperator example_unmarshalParams
      ''zookeeper/params.yaml'' ''malformed'' newPackageFiles = Returns (Inl err)"
    by blast+
  moreover from wellformed example_params_parsed
  have "\<exists>parsed ps.
      parsePackageFile example_unmarshalOperator example_unmarshalParams
        ''zookeeper/params.yaml'' ''params'' newPackageFiles = Returns (Inr parsed) \<and>
      Params parsed = Some ps \<and>
      list_all2 (\<lambda>(paramName, param) r. Parameter.Name r = paramName \<and>
                   (param ''required'' = None \<longrightarrow> Required r)) example_params ps"
    by blast
  ultimately show ?thesis by blast
qed

text \<open>
  Claim C10.  The \<open>Default\<close> of the parameter made from an entry is the entry's value
  at the key \<^verbatim>\<open>default\<close>: a pointer exactly when the key is present (to the empty string
  when the value is the empty string) and \<^verbatim>\<open>nil\<close> when the key is absent; so it is for
  every parameter of the package that \<^verbatim>\<open>parsePackageFile\<close> returns.
\<close>

theorem default_present_iff_key_present:
  assumes "\<not> isOperatorFile filePath" and "\<not> isTemplateFile filePath"
    and "isParametersFile filePath" and "unmarshalParams fileBytes = Inr params"
  shows
    "(parseParameter paramName param = Inr r \<longrightarrow>
        (Default r \<noteq> None \<longleftrightarrow> param ''default'' \<noteq> None) \<and> Default r = param ''default'') \<and>
     (parsePackageFile unmarshalOperator unmarshalParams filePath fileBytes currentPackage =
        Returns (Inr parsed) \<longrightarrow>
        (\<exists>ps. Params parsed = Some ps \<and>
           list_all2 (\<lambda>(paramName, param) r. Parameter.Name r = paramName \<and>
                        (Default r \<noteq> None \<longleftrightarrow> param ''default'' \<noteq> None) \<and>
                        Default r = param ''default'') params ps))"
proof (rule conjI; rule impI)
  assume "parseParameter paramName param = Inr r"
  then show "(Default r \<noteq> None \<longleftrightarrow> param ''default'' \<noteq> None) \<and> Default r = param ''default''"
    by (simp add: parseParameter_Inr)
next
  assume ok: "parsePackageFile unmarshalOperator unmarshalParams filePath fileBytes currentPackage =
        Returns (Inr parsed)"
  then obtain ps where ps: "parseParameters params [] = Inr ps"
    and parsed: "parsed = currentPackage\<lparr>Params := Some ps\<rparr>"
    by (auto simp: parsePackageFile_parameters [where unmarshalParams = unmarshalParams, OF assms] split: sum.splits)
  from parseParameters_Inr [OF ps]
  have "list_all2 (\<lambda>(paramName, param) r. parseParameter paramName param = Inr r) params ps"
    by simp
  then have "list_all2 (\<lambda>(paramName, param) r. Parameter.Name r = paramName \<and>
                        (Default r \<noteq> None \<longleftrightarrow> param ''default'' \<noteq> None) \<and>
                        Default r = param ''default'') params ps"
    by (rule list_all2_mono) (auto dest: parseParameter_Inr)
  with parsed show "\<exists>ps. Params parsed = Some ps \<and>
           list_all2 (\<lambda>(paramName, param) r. Parameter.Name r = paramName \<and>
                        (Default r \<noteq> None \<longleftrightarrow> param ''default'' \<noteq> None) \<and>
                        Default r = param ''default'') params ps"
    by simp
qed


theorem default_present_iff_key_present_witness:
  "(\<exists>r. parseParameter ''password'' [''required'' \<mapsto> ''true'', ''default'' \<mapsto> []] = Inr r \<and>
        Default r = Some []) \<and>
   (\<exists>r. parseParameter ''image'' [''required'' \<mapsto> ''false''] = Inr r \<and> Default r = None) \<and>
   (\<exists>parsed ps.
      parsePackageFile example_unmarshalOperator example_unmarshalParams
        ''zookeeper/params.yaml'' ''params'' newPackageFiles = Returns (Inr parsed) \<and>
      Params parsed = Some ps \<and>
      list_all2 (\<lambda>(paramName, param) r. Parameter.Name r = paramName \<and>
                   (Default r \<noteq> None \<longleftrightarrow> param ''default'' \<noteq> None) \<and>
                   Default r = param ''default'') example_params ps)"
proof -
  have good: "example_unmarshalParams ''params'' = Inr example_params"
    by (simp add: example_unmarshalParams_def)
  obtain password where password:
    "parseParameter ''password'' [''required'' \<mapsto> ''true'', ''default'' \<mapsto> []] = Inr password"
    by (simp add: parseParameter_def ParseBool_def)
  obtain image where image:
    "parseParameter ''image'' [''required'' \<mapsto> ''false''] = Inr image"
    by (simp add: parseParameter_def ParseBool_def)
  note explicit = default_present_iff_key_present
    [where unmarshalParams = example_unmarshalParams and unmarshalOperator = example_unmarshalOperator
       and currentPackage = newPackageFiles and paramName = "''password''"
       and param = "[''required'' \<mapsto> ''true'', ''default'' \<mapsto> []]" and r = password,
     OF params_path_is_parameters_file good]
  note none = default_present_iff_key_present
    [where unmarshalParams = example_unmarshalParams and unmarshalOperator = example_unmarshalOperator
       and currentPackage = newPackageFiles and paramName = "''image''"
       and param = "[''required'' \<mapsto> ''false'']" and r = image,
     OF params_path_is_parameters_file good]
  from explicit password
  have "\<exists>r. parseParameter ''password'' [''required'' \<mapsto> ''true'', ''default'' \<mapsto> []] = Inr r \<and>
        Default r = Some []"
    by simp
  moreover from none image
  have "\<exists>r. parseParameter ''image'' [''required'' \<mapsto> ''false''] = Inr r \<and> Default r = None"
    by simp
  moreover from explicit example_params_parsed
  have "\<exists>parsed ps.
      parsePackageFile example_unmarshalOperator example_unmarshalParams
        ''zookeeper/params.yaml'' ''params'' newPackageFiles = Returns (Inr parsed) \<and>
      Params parsed = Some ps \<and>
      list_all2 (\<lambda>(paramName, param) r. Parameter.Name r = paramName \<and>
                   (Default r \<noteq> None \<longleftrightarrow> param ''default'' \<noteq> None) \<and>
                   Default r = param ''default'') example_params ps"
    by blast
  ultimately show ?thesis by blast
qed

section \<open>Properties of task validation and of the compilation\<close>

lemma missingTemplates_eq:
  "missingTemplates taskName templates resources errs =
     errs @ map (\<lambda>res. ''task '' @ taskName @ '' missing template: '' @ res)
              (filter (\<lambda>res. \<not> has_template templates res) resources)"
  by (induction resources arbitrary: errs) simp_all

lemma validateTask_resource_kind:
  "Task.Kind t = ApplyTaskKind \<or> Task.Kind t = DeleteTaskKind \<Longrightarrow>
   fst (validateTask t templates) =
     map (\<lambda>res. ''task '' @ Task.Name t @ '' missing template: '' @ res)
       (filter (\<lambda>res. \<not> has_template templates res) (Resources (ResourceTaskSpec (Task.Spec t))))"
  by (auto simp: validateTask_def missingTemplates_eq)

lemma validateTask_other_kind:
  "Task.Kind t \<noteq> ApplyTaskKind \<Longrightarrow> Task.Kind t \<noteq> DeleteTaskKind \<Longrightarrow>
   fst (validateTask t templates) = []"
  by (cases "Task.Kind t") (simp_all add: validateTask_def)

lemma validateTasks_eq:
  "validateTasks tasks templates (errs, logged) =
     (errs @ concat (map (\<lambda>t. fst (validateTask t templates)) tasks),
      logged @ concat (map (\<lambda>t. snd (validateTask t templates)) tasks))"
  by (induction tasks arbitrary: errs logged) (simp_all add: case_prod_beta)

lemma getCRDs_no_operator:
  "PackageFiles.Operator p = None \<Longrightarrow>
   getCRDs OperatorLabel rand_String p = (None, Some (New ''operator.yaml file is missing''), [])"
  by (simp add: getCRDs_def)

lemma getCRDs_no_params:
  "PackageFiles.Operator p \<noteq> None \<Longrightarrow> Params p = None \<Longrightarrow>
   getCRDs OperatorLabel rand_String p = (None, Some (New ''params.yaml file is missing''), [])"
  by (auto simp: getCRDs_def)

lemma getCRDs_violations:
  assumes "PackageFiles.Operator p = Some pOperator" and "Params p = Some pParams"
    and "concat (map (\<lambda>t. fst (validateTask t (PackageFiles.Templates p)))
           (Operator.Tasks pOperator)) = errs"
    and "errs \<noteq> []"
  shows "fst (getCRDs OperatorLabel rand_String p) = None"
    and "fst (snd (getCRDs OperatorLabel rand_String p)) = Some (New (Join errs [newline]))"
  using assms by (simp_all add: getCRDs_def validateTasks_eq)

lemma getCRDs_no_violations:
  assumes "PackageFiles.Operator p = Some pOperator" and "Params p = Some pParams"
    and "concat (map (\<lambda>t. fst (validateTask t (PackageFiles.Templates p)))
           (Operator.Tasks pOperator)) = []"
  shows "fst (getCRDs OperatorLabel rand_String p) \<noteq> None"
    and "fst (snd (getCRDs OperatorLabel rand_String p)) = None"
  using assms by (simp_all add: getCRDs_def validateTasks_eq Let_def)

lemma getCRDs_error_no_resources:
  "fst (snd (getCRDs OperatorLabel rand_String p)) \<noteq> None \<Longrightarrow>
   fst (getCRDs OperatorLabel rand_String p) = None"
  by (auto simp: getCRDs_def Let_def split: option.splits prod.splits if_splits)


lemma Join_Cons: "\<exists>rest. Join (x # xs) sep = x @ rest"
  by (cases xs) simp_all

lemma validateTask_starts_with_task:
  "e \<in> set (fst (validateTask t templates)) \<Longrightarrow> \<exists>rest. e = ''task '' @ rest"
  by (cases "Task.Kind t") (auto simp: validateTask_def missingTemplates_eq)

lemma violations_not_completeness_error:
  assumes "errs = concat (map (\<lambda>t. fst (validateTask t templates)) tasks)" and "errs \<noteq> []"
  shows "Join errs sep \<noteq> ''params.yaml file is missing''"
    and "Join errs sep \<noteq> ''operator.yaml file is missing''"
proof -
  from assms(2) obtain e es where errs: "errs = e # es"
    by (cases errs) auto
  with assms(1) obtain t where "e \<in> set (fst (validateTask t templates))"
    by (metis (no_types, lifting) in_set_conv_nth UN_E list.set_intros(1) set_concat set_map imageE)
  then obtain rest where "e = ''task '' @ rest"
    using validateTask_starts_with_task by blast
  moreover obtain more where "Join (e # es) sep = e @ more"
    using Join_Cons by blast
  ultimately have "Join errs sep = ''task '' @ rest @ more"
    using errs by simp
  then show "Join errs sep \<noteq> ''params.yaml file is missing''"
    and "Join errs sep \<noteq> ''operator.yaml file is missing''"
    by simp_all
qed

lemmas example_defs =
  example_package_def example_operator_def example_task_def two_broken_tasks_def valid_tasks_def

text \<open>
  Claim C3.  For a bundle with its operator file and parameter list present: a task of
  kind apply or delete yields one violation string for each of its resources that is not
  a key of the template set, made of the task's name and the resource's name (a task of
  another kind yields none); \<^verbatim>\<open>getCRDs\<close> collects the violations of all tasks, in
  order, and fails exactly when there is one, then with no resources and one error whose
  message is the violations joined by newlines.  Two tasks that each miss one template
  are both in that message.
\<close>

theorem task_violations_are_aggregated:
  assumes "PackageFiles.Operator p = Some pOperator" and "Params p = Some pParams"
  shows
    "(Task.Kind t = ApplyTaskKind \<or> Task.Kind t = DeleteTaskKind \<longrightarrow>
        fst (validateTask t templates) =
          map (\<lambda>res. ''task '' @ Task.Name t @ '' missing template: '' @ res)
            (filter (\<lambda>res. \<not> has_template templates res)
               (Resources (ResourceTaskSpec (Task.Spec t))))) \<and>
     (Task.Kind t \<noteq> ApplyTaskKind \<and> Task.Kind t \<noteq> DeleteTaskKind \<longrightarrow>
        fst (validateTask t templates) = []) \<and>
     (let errs = concat (map (\<lambda>t. fst (validateTask t (PackageFiles.Templates p)))
                   (Operator.Tasks pOperator))
      in (errs \<noteq> [] \<longrightarrow>
            fst (getCRDs OperatorLabel rand_String p) = None \<and>
            fst (snd (getCRDs OperatorLabel rand_String p)) = Some (New (Join errs [newline]))) \<and>
         (errs = [] \<longrightarrow>
            fst (getCRDs OperatorLabel rand_String p) \<noteq> None \<and>
            fst (snd (getCRDs OperatorLabel rand_String p)) = None)) \<and>
     (Operator.Tasks pOperator = [t1, t2] \<and>
      (Task.Kind t1 = ApplyTaskKind \<or> Task.Kind t1 = DeleteTaskKind) \<and>
      (Task.Kind t2 = ApplyTaskKind \<or> Task.Kind t2 = DeleteTaskKind) \<and>
      Resources (ResourceTaskSpec (Task.Spec t1)) = [res1] \<and>
      Resources (ResourceTaskSpec (Task.Spec t2)) = [res2] \<and>
      \<not> has_template (PackageFiles.Templates p) res1 \<and>
      \<not> has_template (PackageFiles.Templates p) res2 \<longrightarrow>
        fst (snd (getCRDs OperatorLabel rand_String p)) =
          Some (New (''task '' @ Task.Name t1 @ '' missing template: '' @ res1 @ [newline] @
                     ''task '' @ Task.Name t2 @ '' missing template: '' @ res2)))"
proof (intro conjI)
  show "Task.Kind t = ApplyTaskKind \<or> Task.Kind t = DeleteTaskKind \<longrightarrow>
        fst (validateTask t templates) =
          map (\<lambda>res. ''task '' @ Task.Name t @ '' missing template: '' @ res)
            (filter (\<lambda>res. \<not> has_template templates res)
               (Resources (ResourceTaskSpec (Task.Spec t))))"
    using validateTask_resource_kind by blast
  show "Task.Kind t \<noteq> ApplyTaskKind \<and> Task.Kind t \<noteq> DeleteTaskKind \<longrightarrow>
        fst (validateTask t templates) = []"
    using validateTask_other_kind by blast
  show "let errs = concat (map (\<lambda>t. fst (validateTask t (PackageFiles.Templates p)))
                   (Operator.Tasks pOperator))
      in (errs \<noteq> [] \<longrightarrow>
            fst (getCRDs OperatorLabel rand_String p) = None \<and>
            fst (snd (getCRDs OperatorLabel rand_String p)) = Some (New (Join errs [newline]))) \<and>
         (errs = [] \<longrightarrow>
            fst (getCRDs OperatorLabel rand_String p) \<noteq> None \<and>
            fst (snd (getCRDs OperatorLabel rand_String p)) = None)"
    unfolding Let_def
    using getCRDs_violations [OF assms refl] getCRDs_no_violations [OF assms] by blast
  show "Operator.Tasks pOperator = [t1, t2] \<and>
      (Task.Kind t1 = ApplyTaskKind \<or> Task.Kind t1 = DeleteTaskKind) \<and>
      (Task.Kind t2 = ApplyTaskKind \<or> Task.Kind t2 = DeleteTaskKind) \<and>
      Resources (ResourceTaskSpec (Task.Spec t1)) = [res1] \<and>
      Resources (ResourceTaskSpec (Task.Spec t2)) = [res2] \<and>
      \<not> has_template (PackageFiles.Templates p) res1 \<and>
      \<not> has_template (PackageFiles.Templates p) res2 \<longrightarrow>
        fst (snd (getCRDs OperatorLabel rand_String p)) =
          Some (New (''task '' @ Task.Name t1 @ '' missing template: '' @ res1 @ [newline] @
                     ''task '' @ Task.Name t2 @ '' missing template: '' @ res2))"
  proof
    assume two: "Operator.Tasks pOperator = [t1, t2] \<and>
      (Task.Kind t1 = ApplyTaskKind \<or> Task.Kind t1 = DeleteTaskKind) \<and>
      (Task.Kind t2 = ApplyTaskKind \<or> Task.Kind t2 = DeleteTaskKind) \<and>
      Resources (ResourceTaskSpec (Task.Spec t1)) = [res1] \<and>
      Resources (ResourceTaskSpec (Task.Spec t2)) = [res2] \<and>
      \<not> has_template (PackageFiles.Templates p) res1 \<and>
      \<not> has_template (PackageFiles.Templates p) res2"
    then have "concat (map (\<lambda>t. fst (validateTask t (PackageFiles.Templates p)))
                 (Operator.Tasks pOperator)) =
               [''task '' @ Task.Name t1 @ '' missing template: '' @ res1,
                ''task '' @ Task.Name t2 @ '' missing template: '' @ res2]"
      by (simp add: validateTask_resource_kind)
    from getCRDs_violations(2) [OF assms this]
    show "fst (snd (getCRDs OperatorLabel rand_String p)) =
          Some (New (''task '' @ Task.Name t1 @ '' missing template: '' @ res1 @ [newline] @
                     ''task '' @ Task.Name t2 @ '' missing template: '' @ res2))"
      by simp
  qed
qed

theorem task_violations_are_aggregated_witness:
  "fst (validateTask (example_task ''deploy'' ApplyTaskKind [''deploy.yaml''])
          (Some [''service.yaml'' \<mapsto> ''kind: Service''])) =
     [''task deploy missing template: deploy.yaml''] \<and>
   fst (validateTask (example_task ''wait'' DummyTaskKind [])
          (Some [''service.yaml'' \<mapsto> ''kind: Service''])) = [] \<and>
   fst (getCRDs ''kudo.dev/operator'' example_rand
          (example_package two_broken_tasks (Some []))) = None \<and>
   fst (snd (getCRDs ''kudo.dev/operator'' example_rand
          (example_package two_broken_tasks (Some [])))) =
     Some (New (''task deploy missing template: deploy.yaml'' @ [newline] @
                ''task cleanup missing template: job.yaml'')) \<and>
   fst (getCRDs ''kudo.dev/operator'' example_rand
          (example_package valid_tasks (Some []))) \<noteq> None \<and>
   fst (snd (getCRDs ''kudo.dev/operator'' example_rand
          (example_package valid_tasks (Some [])))) = None"
proof -
  let ?templates = "Some [''service.yaml'' \<mapsto> ''kind: Service'']"
  have broken: "PackageFiles.Operator (example_package two_broken_tasks (Some [])) =
      Some (example_operator two_broken_tasks)"
    "Params (example_package two_broken_tasks (Some [])) = Some []"
    by (simp_all add: example_package_def)
  have valid: "PackageFiles.Operator (example_package valid_tasks (Some [])) =
      Some (example_operator valid_tasks)"
    "Params (example_package valid_tasks (Some [])) = Some []"
    by (simp_all add: example_package_def)
  note first = task_violations_are_aggregated
    [where p = "example_package two_broken_tasks (Some [])"
       and t = "example_task ''deploy'' ApplyTaskKind [''deploy.yaml'']"
       and templates = "?templates"
       and ?t1.0 = "example_task ''deploy'' ApplyTaskKind [''deploy.yaml'']"
       and ?t2.0 = "example_task ''cleanup'' DeleteTaskKind [''job.yaml'']"
       and ?res1.0 = "''deploy.yaml''" and ?res2.0 = "''job.yaml''"
       and OperatorLabel = "''kudo.dev/operator''" and rand_String = example_rand,
     OF broken]
  note second = task_violations_are_aggregated
    [where p = "example_package valid_tasks (Some [])"
       and t = "example_task ''wait'' DummyTaskKind []"
       and templates = "?templates"
       and OperatorLabel = "''kudo.dev/operator''" and rand_String = example_rand,
     OF valid]
  have errs_broken: "concat (map (\<lambda>t. fst (validateTask t
        (PackageFiles.Templates (example_package two_broken_tasks (Some [])))))
        (Operator.Tasks (example_operator two_broken_tasks))) \<noteq> []"
    by (simp add: example_defs validateTask_def has_template_def)
  have errs_valid: "concat (map (\<lambda>t. fst (validateTask t
        (PackageFiles.Templates (example_package valid_tasks (Some [])))))
        (Operator.Tasks (example_operator valid_tasks))) = []"
    by (simp add: example_defs validateTask_def has_template_def)
  have missing: "\<not> has_template (PackageFiles.Templates (example_package two_broken_tasks (Some [])))
      ''deploy.yaml''"
    "\<not> has_template (PackageFiles.Templates (example_package two_broken_tasks (Some [])))
      ''job.yaml''"
    by (simp_all add: example_defs has_template_def)
  from first errs_broken missing
  have "fst (validateTask (example_task ''deploy'' ApplyTaskKind [''deploy.yaml'']) ?templates) =
     [''task deploy missing template: deploy.yaml'']"
    and "fst (getCRDs ''kudo.dev/operator'' example_rand
          (example_package two_broken_tasks (Some []))) = None"
    and "fst (snd (getCRDs ''kudo.dev/operator'' example_rand
          (example_package two_broken_tasks (Some [])))) =
     Some (New (''task deploy missing template: deploy.yaml'' @ [newline] @
                ''task cleanup missing template: job.yaml''))"
    by (simp_all add: example_defs has_template_def Let_def)
  moreover from second errs_valid
  have "fst (validateTask (example_task ''wait'' DummyTaskKind []) ?templates) = []"
    and "fst (getCRDs ''kudo.dev/operator'' example_rand
          (example_package valid_tasks (Some []))) \<noteq> None"
    and "fst (snd (getCRDs ''kudo.dev/operator'' example_rand
          (example_package valid_tasks (Some [])))) = None"
    by (simp_all add: example_task_def Let_def)
  ultimately show ?thesis by simp
qed

text \<open>
  Claim C4.  \<^verbatim>\<open>getCRDs\<close> fails with the error \<^verbatim>\<open>operator.yaml file is missing\<close> when
  the operator is \<^verbatim>\<open>nil\<close>, and with the different error \<^verbatim>\<open>params.yaml file is missing\<close>
  when the operator is there and the parameter list is \<^verbatim>\<open>nil\<close>.  With an empty
  parameter list that is not \<^verbatim>\<open>nil\<close> neither error is returned, and the resources are
  built when no task has a violation.
\<close>

theorem completeness_errors:
  "(PackageFiles.Operator p = None \<longrightarrow>
      fst (snd (getCRDs OperatorLabel rand_String p)) =
        Some (New ''operator.yaml file is missing'')) \<and>
   (PackageFiles.Operator p \<noteq> None \<and> Params p = None \<longrightarrow>
      fst (snd (getCRDs OperatorLabel rand_String p)) =
        Some (New ''params.yaml file is missing'')) \<and>
   New ''operator.yaml file is missing'' \<noteq> New ''params.yaml file is missing'' \<and>
   (PackageFiles.Operator p = Some pOperator \<and> Params p = Some [] \<longrightarrow>
      fst (snd (getCRDs OperatorLabel rand_String p)) \<noteq>
        Some (New ''params.yaml file is missing'') \<and>
      fst (snd (getCRDs OperatorLabel rand_String p)) \<noteq>
        Some (New ''operator.yaml file is missing'') \<and>
      (concat (map (\<lambda>t. fst (validateTask t (PackageFiles.Templates p)))
         (Operator.Tasks pOperator)) = [] \<longrightarrow>
       fst (getCRDs OperatorLabel rand_String p) \<noteq> None \<and>
       fst (snd (getCRDs OperatorLabel rand_String p)) = None))"
proof (intro conjI impI)
  assume "PackageFiles.Operator p = None"
  then show "fst (snd (getCRDs OperatorLabel rand_String p)) =
      Some (New ''operator.yaml file is missing'')"
    by (simp add: getCRDs_no_operator)
next
  assume "PackageFiles.Operator p \<noteq> None \<and> Params p = None"
  then show "fst (snd (getCRDs OperatorLabel rand_String p)) =
      Some (New ''params.yaml file is missing'')"
    by (simp add: getCRDs_no_params)
next
  show "New ''operator.yaml file is missing'' \<noteq> New ''params.yaml file is missing''"
    by simp
next
  assume present: "PackageFiles.Operator p = Some pOperator \<and> Params p = Some []"
  let ?errs = "concat (map (\<lambda>t. fst (validateTask t (PackageFiles.Templates p)))
                 (Operator.Tasks pOperator))"
  have result: "fst (snd (getCRDs OperatorLabel rand_String p)) =
      (if ?errs = [] then None else Some (New (Join ?errs [newline])))"
    using present getCRDs_violations(2) [of p pOperator "[]" ?errs]
      getCRDs_no_violations(2) [of p pOperator "[]"] by simp
  show "fst (snd (getCRDs OperatorLabel rand_String p)) \<noteq>
      Some (New ''params.yaml file is missing'')"
    using result violations_not_completeness_error(1) [OF refl, of "PackageFiles.Templates p"
        "Operator.Tasks pOperator" "[newline]"]
    by (simp split: if_splits)
  show "fst (snd (getCRDs OperatorLabel rand_String p)) \<noteq>
      Some (New ''operator.yaml file is missing'')"
    using result violations_not_completeness_error(2) [OF refl, of "PackageFiles.Templates p"
        "Operator.Tasks pOperator" "[newline]"]
    by (simp split: if_splits)
  assume "?errs = []"
  with present show "fst (getCRDs OperatorLabel rand_String p) \<noteq> None"
    and "fst (snd (getCRDs OperatorLabel rand_String p)) = None"
    using getCRDs_no_violations [of p pOperator "[]"] by simp_all
qed

theorem completeness_errors_witness:
  "fst (snd (getCRDs ''kudo.dev/operator'' example_rand
          (newPackageFiles :: (string, string) PackageFiles))) =
     Some (New ''operator.yaml file is missing'') \<and>
   fst (snd (getCRDs ''kudo.dev/operator'' example_rand (example_package two_broken_tasks None))) =
     Some (New ''params.yaml file is missing'') \<and>
   fst (getCRDs ''kudo.dev/operator'' example_rand (example_package valid_tasks (Some []))) \<noteq> None \<and>
   fst (snd (getCRDs ''kudo.dev/operator'' example_rand (example_package valid_tasks (Some [])))) =
     None"
proof -
  have no_operator: "PackageFiles.Operator (newPackageFiles :: (string, string) PackageFiles) = None"
    by (simp add: newPackageFiles_def)
  have no_params: "PackageFiles.Operator (example_package two_broken_tasks None) \<noteq> None \<and>
      Params (example_package two_broken_tasks None) = None"
    by (simp add: example_package_def)
  have empty_params: "PackageFiles.Operator (example_package valid_tasks (Some [])) =
        Some (example_operator valid_tasks) \<and>
      Params (example_package valid_tasks (Some [])) = Some []"
    by (simp add: example_package_def)
  have errs_valid: "concat (map (\<lambda>t. fst (validateTask t
        (PackageFiles.Templates (example_package valid_tasks (Some [])))))
        (Operator.Tasks (example_operator valid_tasks))) = []"
    by (simp add: example_defs validateTask_def has_template_def)
  from completeness_errors [where p = "newPackageFiles :: (string, string) PackageFiles"
      and OperatorLabel = "''kudo.dev/operator''" and rand_String = example_rand] no_operator
  have "fst (snd (getCRDs ''kudo.dev/operator'' example_rand
          (newPackageFiles :: (string, string) PackageFiles))) =
     Some (New ''operator.yaml file is missing'')"
    by blast
  moreover
  from completeness_errors [where p = "example_package two_broken_tasks None"
      and OperatorLabel = "''kudo.dev/operator''" and rand_String = example_rand] no_params
  have "fst (snd (getCRDs ''kudo.dev/operator'' example_rand
          (example_package two_broken_tasks None))) = Some (New ''params.yaml file is missing'')"
    by blast
  moreover
  from completeness_errors [where p = "example_package valid_tasks (Some [])"
      and pOperator = "example_operator valid_tasks"
      and OperatorLabel = "''kudo.dev/operator''" and rand_String = example_rand]
    empty_params errs_valid
  have "fst (getCRDs ''kudo.dev/operator'' example_rand
          (example_package valid_tasks (Some []))) \<noteq> None \<and>
        fst (snd (getCRDs ''kudo.dev/operator'' example_rand
          (example_package valid_tasks (Some [])))) = None"
    by blast
  ultimately show ?thesis by blast
qed

text \<open>
  Claim C9.  A \<^verbatim>\<open>nil\<close> operator gives the operator-missing error whatever the parameter
  list and the templates are; an operator with a \<^verbatim>\<open>nil\<close> parameter list gives the
  params-missing error whatever the tasks are, and nothing has been logged by the task
  validation; and whenever \<^verbatim>\<open>getCRDs\<close> returns an error the resources are \<^verbatim>\<open>nil\<close>.
\<close>

theorem completeness_is_checked_first:
  "(PackageFiles.Operator p = None \<longrightarrow>
      getCRDs OperatorLabel rand_String p =
        (None, Some (New ''operator.yaml file is missing''), [])) \<and>
   (PackageFiles.Operator p \<noteq> None \<and> Params p = None \<longrightarrow>
      getCRDs OperatorLabel rand_String p =
        (None, Some (New ''params.yaml file is missing''), [])) \<and>
   (fst (snd (getCRDs OperatorLabel rand_String p)) \<noteq> None \<longrightarrow>
      fst (getCRDs OperatorLabel rand_String p) = None)"
  using getCRDs_no_operator getCRDs_no_params getCRDs_error_no_resources by blast


theorem completeness_is_checked_first_witness:
  "getCRDs ''kudo.dev/operator'' example_rand (newPackageFiles :: (string, string) PackageFiles) =
     (None, Some (New ''operator.yaml file is missing''), []) \<and>
   getCRDs ''kudo.dev/operator'' example_rand (example_package two_broken_tasks None) =
     (None, Some (New ''params.yaml file is missing''), []) \<and>
   fst (getCRDs ''kudo.dev/operator'' example_rand
          (example_package two_broken_tasks (Some []))) = None"
proof -
  have no_operator: "PackageFiles.Operator (newPackageFiles :: (string, string) PackageFiles) = None"
    by (simp add: newPackageFiles_def)
  have no_params: "PackageFiles.Operator (example_package two_broken_tasks None) \<noteq> None \<and>
      Params (example_package two_broken_tasks None) = None"
    by (simp add: example_package_def)
  have failed: "fst (snd (getCRDs ''kudo.dev/operator'' example_rand
      (example_package two_broken_tasks (Some [])))) \<noteq> None"
    by (simp add: getCRDs_def example_defs validateTask_def has_template_def)
  from completeness_is_checked_first
         [where p = "newPackageFiles :: (string, string) PackageFiles"
            and OperatorLabel = "''kudo.dev/operator''" and rand_String = example_rand]
       no_operator
  have "getCRDs ''kudo.dev/operator'' example_rand
          (newPackageFiles :: (string, string) PackageFiles) =
     (None, Some (New ''operator.yaml file is missing''), [])"
    by blast
  moreover
  from completeness_is_checked_first
         [where p = "example_package two_broken_tasks None"
            and OperatorLabel = "''kudo.dev/operator''" and rand_String = example_rand]
       no_params
  have "getCRDs ''kudo.dev/operator'' example_rand (example_package two_broken_tasks None) =
     (None, Some (New ''params.yaml file is missing''), [])"
    by blast
  moreover
  from completeness_is_checked_first
         [where p = "example_package two_broken_tasks (Some [])"
            and OperatorLabel = "''kudo.dev/operator''" and rand_String = example_rand]
       failed
  have "fst (getCRDs ''kudo.dev/operator'' example_rand
          (example_package two_broken_tasks (Some []))) = None"
    by blast
  ultimately show ?thesis by blast
qed

section \<open>Properties of the batch loader\<close>

lemma mapPaths_loop_eq:
  "mapPaths_loop fs paths f (ops, printed) =
     (ops @ map (\<lambda>path. fst (f fs path)) (filter (\<lambda>path. snd (f fs path) = None) paths),
      printed @ map (\<lambda>path. ''WARNING: operator: '' @ path @ '' is invalid'')
                  (filter (\<lambda>path. snd (f fs path) \<noteq> None) paths))"
proof (induction paths arbitrary: ops printed)
  case Nil
  show ?case by simp
next
  case (Cons path paths)
  show ?case
  proof (cases "f fs path")
    case (Pair op err)
    with Cons show ?thesis by (cases err) simp_all
  qed
qed

text \<open>
  Claim C7.  When exactly one source of the list fails to load (the loader returns an
  error for it and for none before or after it), the batch loader returns one result
  less than there are sources, namely the results of the other sources in the order of
  the list, without whatever the loader returned beside the error, and prints one
  warning, which names the failed source.
\<close>

theorem batch_drops_the_failed_source:
  assumes "paths = before @ bad # after"
    and "\<forall>path \<in> set before \<union> set after. snd (f fs path) = None"
    and "snd (f fs bad) \<noteq> None"
  shows "mapPaths fs paths f =
           (map (\<lambda>path. fst (f fs path)) (before @ after),
            [''WARNING: operator: '' @ bad @ '' is invalid'']) \<and>
         length (fst (mapPaths fs paths f)) = length paths - 1"
proof -
  from assms(2) have ok: "filter (\<lambda>path. snd (f fs path) = None) before = before"
    "filter (\<lambda>path. snd (f fs path) = None) after = after"
    "filter (\<lambda>path. snd (f fs path) \<noteq> None) before = []"
    "filter (\<lambda>path. snd (f fs path) \<noteq> None) after = []"
    by (simp_all add: filter_id_conv filter_empty_conv)
  with assms(1,3) show ?thesis
    by (simp add: mapPaths_def mapPaths_loop_eq)
qed

theorem batch_drops_the_failed_source_witness:
  "mapPaths () [''a.tgz'', ''b.tgz'', ''c.tgz''] example_loader =
     ([''a.tgz'', ''c.tgz''], [''WARNING: operator: b.tgz is invalid'']) \<and>
   length (fst (mapPaths () [''a.tgz'', ''b.tgz'', ''c.tgz''] example_loader)) = 2"
proof -
  have split: "[''a.tgz'', ''b.tgz'', ''c.tgz''] = [''a.tgz''] @ ''b.tgz'' # [''c.tgz'']"
    by simp
  have good: "\<forall>path \<in> set [''a.tgz''] \<union> set [''c.tgz'']. snd (example_loader () path) = None"
    by (simp add: example_loader_def)
  have bad: "snd (example_loader () ''b.tgz'') \<noteq> None"
    by (simp add: example_loader_def)
  from batch_drops_the_failed_source
         [where f = example_loader and fs = "()" and before = "[''a.tgz'']" and bad = "''b.tgz''"
            and after = "[''c.tgz'']", OF split good bad]
  show ?thesis
    by (simp add: example_loader_def)
qed

section \<open>Properties of the plan selector\<close>

lemma plansByName_of_list:
  "plansByName (fmap_of_list xs) =
     List.map_filter (\<lambda>n. map_option (Pair n) (map_of xs n)) (sort (remdups (map fst xs)))"
proof -
  have "sorted_list_of_fset (fmdom (fmap_of_list xs)) = sort (remdups (map fst xs))"
    by (simp add: sorted_list_of_fset.rep_eq fset_of_list.rep_eq sorted_list_of_set_sort_remdups
          flip: set_map)
  then show ?thesis
    by (simp add: plansByName_def fmap_of_list.rep_eq)
qed

lemma plansByName_eq:
  "plansByName m = map (\<lambda>n. (n, the (fmlookup m n))) (sorted_list_of_fset (fmdom m))"
proof -
  have "List.map_filter (\<lambda>n. map_option (Pair n) (fmlookup m n)) ns =
        map (\<lambda>n. (n, the (fmlookup m n))) ns" if "set ns \<subseteq> fset (fmdom m)" for ns
    using that
  proof (induction ns)
    case Nil
    then show ?case by (simp add: List.map_filter_simps)
  next
    case (Cons n ns)
    then obtain p where "fmlookup m n = Some p"
      by (auto simp: fmdom.rep_eq dom_def)
    with Cons show ?case by (simp add: List.map_filter_simps)
  qed
  then show ?thesis by (simp add: plansByName_def)
qed

lemma set_plansByName: "(n, p) \<in> set (plansByName m) \<longleftrightarrow> fmlookup m n = Some p"
  by (auto simp: plansByName_eq fmdom.rep_eq dom_def image_iff)

lemma keys_plansByName: "map fst (plansByName m) = sorted_list_of_fset (fmdom m)"
  by (simp add: plansByName_eq comp_def)

lemma sorted_plansByName: "sorted (map fst (plansByName m))"
  by (simp add: keys_plansByName sorted_list_of_fset.rep_eq)

lemma latestFinished_Some:
  "\<exists>ys r zs. latestFinished (Some b) xs = Some r \<and> b # xs = ys @ r # zs \<and>
     (\<forall>y \<in> set ys. LastFinishedRun (snd y) < LastFinishedRun (snd r)) \<and>
     (\<forall>z \<in> set zs. LastFinishedRun (snd z) \<le> LastFinishedRun (snd r))"
proof (induction xs arbitrary: b)
  case Nil
  have "latestFinished (Some b) [] = Some b \<and> b # [] = [] @ b # []" by simp
  then show ?case by fastforce
next
  case (Cons x xs)
  obtain bn bp where b: "b = (bn, bp)" by (cases b)
  obtain n p where x: "x = (n, p)" by (cases x)
  show ?case
  proof (cases "LastFinishedRun p > LastFinishedRun bp")
    case True
    from Cons.IH [of x] obtain ys r zs where r: "latestFinished (Some x) xs = Some r"
      and split: "x # xs = ys @ r # zs"
      and before: "\<forall>y \<in> set ys. LastFinishedRun (snd y) < LastFinishedRun (snd r)"
      and after: "\<forall>z \<in> set zs. LastFinishedRun (snd z) \<le> LastFinishedRun (snd r)"
      by blast
    have "x \<in> set (ys @ r # zs)" using split by (metis list.set_intros(1))
    with before after have "LastFinishedRun (snd x) \<le> LastFinishedRun (snd r)"
      by (auto simp: less_imp_le)
    with True x b have "LastFinishedRun (snd b) < LastFinishedRun (snd r)" by simp
    with before have "\<forall>y \<in> set (b # ys). LastFinishedRun (snd y) < LastFinishedRun (snd r)"
      by simp
    moreover have "b # x # xs = (b # ys) @ r # zs" using split by simp
    moreover have "latestFinished (Some b) (x # xs) = Some r" using r True b x by simp
    ultimately show ?thesis using after by blast
  next
    case False
    from Cons.IH [of b] obtain ys r zs where r: "latestFinished (Some b) xs = Some r"
      and split: "b # xs = ys @ r # zs"
      and before: "\<forall>y \<in> set ys. LastFinishedRun (snd y) < LastFinishedRun (snd r)"
      and after: "\<forall>z \<in> set zs. LastFinishedRun (snd z) \<le> LastFinishedRun (snd r)"
      by blast
    have res: "latestFinished (Some b) (x # xs) = Some r" using r False b x by simp
    show ?thesis
    proof (cases ys)
      case Nil
      with split have "r = b" "zs = xs" by simp_all
      with False b x after have "\<forall>z \<in> set (x # xs). LastFinishedRun (snd z) \<le> LastFinishedRun (snd r)"
        by simp
      moreover have "b # x # xs = [] @ r # x # xs" using \<open>r = b\<close> by simp
      ultimately show ?thesis using res by fastforce
    next
      case (Cons y ys')
      with split have "y = b" and xs: "xs = ys' @ r # zs" by simp_all
      with before Cons have "LastFinishedRun (snd b) < LastFinishedRun (snd r)" by simp
      with False b x have "LastFinishedRun (snd x) < LastFinishedRun (snd r)" by simp
      with before Cons \<open>y = b\<close>
      have "\<forall>y \<in> set (b # x # ys'). LastFinishedRun (snd y) < LastFinishedRun (snd r)" by simp
      moreover have "b # x # xs = (b # x # ys') @ r # zs" using xs by simp
      ultimately show ?thesis using res after by blast
    qed
  qed
qed

lemma latestFinished_None:
  "xs \<noteq> [] \<Longrightarrow> \<exists>ys r zs. latestFinished None xs = Some r \<and> xs = ys @ r # zs \<and>
     (\<forall>y \<in> set ys. LastFinishedRun (snd y) < LastFinishedRun (snd r)) \<and>
     (\<forall>z \<in> set zs. LastFinishedRun (snd z) \<le> LastFinishedRun (snd r))"
  using latestFinished_Some by (cases xs) simp_all



text \<open>The selector gives what the three cases of the test expect.\<close>

lemma test_no_plan_ever_run_result: "GetLastExecutedPlanStatus test_no_plan_ever_run = None"
  by (simp add: GetLastExecutedPlanStatus_def test_no_plan_ever_run_def plansByName_of_list
        testPlan_def List.map_filter_simps del: fmap_of_list_simps)

lemma test_plan_in_progress_result:
  "GetLastExecutedPlanStatus test_plan_in_progress = Some (testPlan ''test'' ExecutionInProgress 0)"
  by (simp add: GetLastExecutedPlanStatus_def test_plan_in_progress_def plansByName_of_list
        testPlan_def List.map_filter_simps del: fmap_of_list_simps)

lemma test_last_executed_plan_result:
  "GetLastExecutedPlanStatus test_last_executed_plan =
     Some (testPlan ''test2'' ExecutionComplete (testTime + 3600000000000))"
  by (simp add: GetLastExecutedPlanStatus_def test_last_executed_plan_def plansByName_of_list
        testPlan_def List.map_filter_simps del: fmap_of_list_simps)

text \<open>
  Claim C1.  Whenever the plan-status map holds a plan that is in progress, the selector
  returns a plan of the map that is in progress, whatever the last-finished times of the
  plans are (nothing is assumed about them).
\<close>

theorem in_progress_plan_is_selected:
  assumes "fmlookup planStatus n = Some p" and "PlanStatus.Status p = ExecutionInProgress"
  shows "\<exists>n' p'. GetLastExecutedPlanStatus planStatus = Some p' \<and>
           fmlookup planStatus n' = Some p' \<and> PlanStatus.Status p' = ExecutionInProgress"
proof -
  let ?running = "filter (\<lambda>(n, p). PlanStatus.Status p = ExecutionInProgress)
                    (plansByName planStatus)"
  from assms have "(n, p) \<in> set ?running"
    by (simp add: set_plansByName)
  then obtain n' p' rest where running: "?running = (n', p') # rest"
    by (cases ?running) auto
  then have "(n', p') \<in> set ?running"
    by simp
  then have "fmlookup planStatus n' = Some p'" and "PlanStatus.Status p' = ExecutionInProgress"
    by (simp_all add: set_plansByName)
  moreover from running have "GetLastExecutedPlanStatus planStatus = Some p'"
    by (simp add: GetLastExecutedPlanStatus_def)
  ultimately show ?thesis by blast
qed

theorem in_progress_plan_is_selected_witness:
  "fmlookup test_plan_in_progress ''test'' = Some (testPlan ''test'' ExecutionInProgress 0) \<and>
   PlanStatus.Status (testPlan ''test'' ExecutionInProgress 0) = ExecutionInProgress \<and>
   (\<exists>n' p'. GetLastExecutedPlanStatus test_plan_in_progress = Some p' \<and>
      fmlookup test_plan_in_progress n' = Some p' \<and>
      PlanStatus.Status p' = ExecutionInProgress)"
proof -
  have look: "fmlookup test_plan_in_progress ''test'' = Some (testPlan ''test'' ExecutionInProgress 0)"
    by (simp add: test_plan_in_progress_def)
  have run: "PlanStatus.Status (testPlan ''test'' ExecutionInProgress 0) = ExecutionInProgress"
    by (simp add: testPlan_def)
  from look run in_progress_plan_is_selected [OF look run] show ?thesis
    by blast
qed

text \<open>
  Claim C8.  When no plan of the map is in progress and none is complete, which covers a
  map of plans that never ran and the empty map, the selector returns nothing.
\<close>

theorem nothing_selected_when_no_plan_has_run:
  assumes "\<forall>n p. fmlookup planStatus n = Some p \<longrightarrow>
             PlanStatus.Status p \<noteq> ExecutionInProgress \<and> PlanStatus.Status p \<noteq> ExecutionComplete"
  shows "GetLastExecutedPlanStatus planStatus = None"
proof -
  have "filter (\<lambda>(n, p). PlanStatus.Status p = ExecutionInProgress) (plansByName planStatus) = []"
    using assms by (auto simp: filter_empty_conv set_plansByName)
  moreover
  have "filter (\<lambda>(n, p). PlanStatus.Status p = ExecutionComplete) (plansByName planStatus) = []"
    using assms by (auto simp: filter_empty_conv set_plansByName)
  ultimately show ?thesis
    by (simp add: GetLastExecutedPlanStatus_def)
qed

theorem nothing_selected_when_no_plan_has_run_witness:
  "GetLastExecutedPlanStatus test_no_plan_ever_run = None \<and>
   GetLastExecutedPlanStatus fmempty = None"
proof -
  have never: "\<forall>n p. fmlookup test_no_plan_ever_run n = Some p \<longrightarrow>
      PlanStatus.Status p \<noteq> ExecutionInProgress \<and> PlanStatus.Status p \<noteq> ExecutionComplete"
    by (auto simp: test_no_plan_ever_run_def testPlan_def split: if_splits)
  have empty: "\<forall>n p. fmlookup fmempty n = Some p \<longrightarrow>
      PlanStatus.Status p \<noteq> ExecutionInProgress \<and> PlanStatus.Status p \<noteq> ExecutionComplete"
    by simp
  from nothing_selected_when_no_plan_has_run [OF never]
    nothing_selected_when_no_plan_has_run [OF empty]
  show ?thesis by (rule conjI)
qed

text \<open>
  Claim C2.  When no plan of the map is in progress and some plan is complete, the
  selector returns a complete plan of the map whose last-finished time no complete plan
  exceeds, and whose name is the least, in lexical order, among the complete plans with
  that time: a later plan replaces the candidate only on a strictly greater time.
\<close>

theorem latest_complete_plan_is_selected:
  assumes none_running:
      "\<forall>n p. fmlookup planStatus n = Some p \<longrightarrow> PlanStatus.Status p \<noteq> ExecutionInProgress"
    and complete: "fmlookup planStatus n0 = Some p0" "PlanStatus.Status p0 = ExecutionComplete"
  shows "\<exists>n p. GetLastExecutedPlanStatus planStatus = Some p \<and>
           fmlookup planStatus n = Some p \<and> PlanStatus.Status p = ExecutionComplete \<and>
           (\<forall>n' p'. fmlookup planStatus n' = Some p' \<and> PlanStatus.Status p' = ExecutionComplete \<longrightarrow>
              LastFinishedRun p' \<le> LastFinishedRun p \<and>
              (LastFinishedRun p' = LastFinishedRun p \<longrightarrow> n \<le> n'))"
proof -
  let ?done = "filter (\<lambda>(n, p). PlanStatus.Status p = ExecutionComplete) (plansByName planStatus)"
  have running: "filter (\<lambda>(n, p). PlanStatus.Status p = ExecutionInProgress)
                   (plansByName planStatus) = []"
    using none_running by (auto simp: filter_empty_conv set_plansByName)
  have in_done: "(n, p) \<in> set ?done \<longleftrightarrow>
      fmlookup planStatus n = Some p \<and> PlanStatus.Status p = ExecutionComplete" for n p
    by (auto simp: set_plansByName)
  from complete have "(n0, p0) \<in> set ?done"
    by (simp add: set_plansByName)
  then have "?done \<noteq> []"
    by (metis empty_iff list.set(1))
  from latestFinished_None [OF this] obtain ys r zs
    where r: "latestFinished None ?done = Some r"
      and split: "?done = ys @ r # zs"
      and before: "\<forall>y \<in> set ys. LastFinishedRun (snd y) < LastFinishedRun (snd r)"
      and after: "\<forall>z \<in> set zs. LastFinishedRun (snd z) \<le> LastFinishedRun (snd r)"
    by blast
  obtain n p where np: "r = (n, p)" by (cases r)
  have "sorted (map fst ?done)"
    using sorted_plansByName [of planStatus] by (simp add: sorted_filter)
  with split np have later: "\<forall>z \<in> set zs. n \<le> fst z"
    by (simp add: sorted_append)
  have "(n, p) \<in> set ?done" using split np by simp
  then have sel: "fmlookup planStatus n = Some p" "PlanStatus.Status p = ExecutionComplete"
    using in_done by simp_all
  have best: "LastFinishedRun p' \<le> LastFinishedRun p \<and> (LastFinishedRun p' = LastFinishedRun p \<longrightarrow> n \<le> n')"
    if "fmlookup planStatus n' = Some p'" "PlanStatus.Status p' = ExecutionComplete" for n' p'
  proof -
    from that have "(n', p') \<in> set (ys @ r # zs)"
      using in_done [of n' p'] split by simp
    then consider "(n', p') \<in> set ys" | "(n', p') = r" | "(n', p') \<in> set zs"
      by auto
    then show ?thesis
    proof cases
      case 1
      with before np show ?thesis by fastforce
    next
      case 2
      with np show ?thesis by simp
    next
      case 3
      with after later np show ?thesis by fastforce
    qed
  qed
  have "GetLastExecutedPlanStatus planStatus = Some p"
    using running r np by (simp add: GetLastExecutedPlanStatus_def)
  with sel best show ?thesis by blast
qed

theorem latest_complete_plan_is_selected_witness:
  "fmlookup test_last_executed_plan ''test'' = Some (testPlan ''test'' ExecutionComplete testTime) \<and>
   PlanStatus.Status (testPlan ''test'' ExecutionComplete testTime) = ExecutionComplete \<and>
   (\<exists>n p. GetLastExecutedPlanStatus test_last_executed_plan = Some p \<and>
      fmlookup test_last_executed_plan n = Some p \<and> PlanStatus.Status p = ExecutionComplete \<and>
      (\<forall>n' p'. fmlookup test_last_executed_plan n' = Some p' \<and>
           PlanStatus.Status p' = ExecutionComplete \<longrightarrow>
         LastFinishedRun p' \<le> LastFinishedRun p \<and>
         (LastFinishedRun p' = LastFinishedRun p \<longrightarrow> n \<le> n')))"
proof -
  have idle: "\<forall>n p. fmlookup test_last_executed_plan n = Some p \<longrightarrow>
      PlanStatus.Status p \<noteq> ExecutionInProgress"
    by (auto simp: test_last_executed_plan_def testPlan_def split: if_splits)
  have look: "fmlookup test_last_executed_plan ''test'' =
      Some (testPlan ''test'' ExecutionComplete testTime)"
    by (simp add: test_last_executed_plan_def)
  have fin: "PlanStatus.Status (testPlan ''test'' ExecutionComplete testTime) = ExecutionComplete"
    by (simp add: testPlan_def)
  from latest_complete_plan_is_selected [OF idle look fin] look fin show ?thesis
    by blast
qed

end
